theory Spec2Isabelle
  imports Main "HOL-Library.Char_ord" "HOL-Library.List_Lexorder" "HOL-Library.Multiset"
begin

section \<open>JavaScript building blocks\<close>

text \<open>
  The sources are JavaScript: \<^verbatim>\<open>script.js\<close> runs in the browser, the relay function
  (an Azure Function behind \<^verbatim>\<open>/api/tmdb\<close>, in two variants that differ in how they fetch
  the page to scrape) runs on the server.
  JavaScript strings are modelled as \<^typ>\<open>string\<close>, read as the UTF-8 bytes of the text;
  a JavaScript \<^verbatim>\<open>Set\<close> is the list of its members in insertion order; a plain object
  used as a dictionary is the list of its own properties in creation order.
\<close>

subsection \<open>Array.prototype.sort\<close>

text \<open>
  \<^verbatim>\<open>xs.sort(compareFn)\<close> is a stable sort (ECMAScript 2019): \<^verbatim>\<open>a\<close> stays before
  \<^verbatim>\<open>b\<close> unless \<^verbatim>\<open>compareFn(a, b) > 0\<close>. For a consistent comparator the result is
  unique; inserting from the right end computes it.
\<close>

fun insort_cmp :: "('a \<Rightarrow> 'a \<Rightarrow> int) \<Rightarrow> 'a \<Rightarrow> 'a list \<Rightarrow> 'a list" where
  "insort_cmp cmp x [] = [x]"
| "insort_cmp cmp x (y # ys) =
     (if cmp x y \<le> 0 then x # y # ys else y # insort_cmp cmp x ys)"

definition js_sort :: "('a \<Rightarrow> 'a \<Rightarrow> int) \<Rightarrow> 'a list \<Rightarrow> 'a list" where
  "js_sort cmp xs = foldr (insort_cmp cmp) xs []"

subsection \<open>Set.prototype.add\<close>

definition set_add :: "'a list \<Rightarrow> 'a \<Rightarrow> 'a list" where
  "set_add s x = (if x \<in> set s then s else s @ [x])"

subsection \<open>Property order of an object with numeric keys\<close>

text \<open>
  \<^verbatim>\<open>Object.keys\<close>, \<^verbatim>\<open>Object.values\<close> and \<^verbatim>\<open>for-in\<close> list an object's own
  properties with the array indices first (the integers below \<open>2^32 - 1\<close>), in ascending
  numeric order, and the other keys after them in creation order.
\<close>

definition is_array_index :: "nat \<Rightarrow> bool" where
  "is_array_index n = (n < 2 ^ 32 - 1)"

definition own_property_order :: "(nat \<times> 'v) list \<Rightarrow> (nat \<times> 'v) list" where
  "own_property_order m =
     sort_key fst (filter (\<lambda>kv. is_array_index (fst kv)) m)
     @ filter (\<lambda>kv. \<not> is_array_index (fst kv)) m"

definition object_values :: "(nat \<times> 'v) list \<Rightarrow> 'v list" where
  "object_values m = map snd (own_property_order m)"

subsection \<open>String functions\<close>

text \<open>
  \<^verbatim>\<open>toUpperCase\<close> and \<^verbatim>\<open>toLowerCase\<close> map the letters of the ASCII range and leave
  every other byte as it is (JavaScript maps the letters outside ASCII as well). The
  country codes, to which \<^verbatim>\<open>toUpperCase\<close> is applied, are ASCII. The scraper compares
  a lower-cased heading with \<^verbatim>\<open>stream\<close> only; no character outside ASCII has one of
  these six letters as its lower case, so the comparison comes out as in JavaScript for
  every heading.
\<close>

definition ascii_lower :: string where
  "ascii_lower = ''abcdefghijklmnopqrstuvwxyz''"

definition ascii_upper :: string where
  "ascii_upper = ''ABCDEFGHIJKLMNOPQRSTUVWXYZ''"

definition toUpperCase :: "string \<Rightarrow> string" where
  "toUpperCase s =
     map (\<lambda>c. case map_of (zip ascii_lower ascii_upper) c of Some u \<Rightarrow> u | None \<Rightarrow> c) s"

definition toLowerCase :: "string \<Rightarrow> string" where
  "toLowerCase s =
     map (\<lambda>c. case map_of (zip ascii_upper ascii_lower) c of Some l \<Rightarrow> l | None \<Rightarrow> c) s"

text \<open>
  \<^verbatim>\<open>trim\<close> removes white space and line terminators from both ends. These are the
  characters U+0009 to U+000D, U+0020, U+00A0, U+1680, U+2000 to U+200A, U+2028, U+2029,
  U+202F, U+205F, U+3000 and U+FEFF, listed here as their UTF-8 bytes.
\<close>

definition white_space :: "string list" where
  "white_space =
     [[CHR 0x09], [CHR 0x0A], [CHR 0x0B], [CHR 0x0C], [CHR 0x0D], [CHR 0x20],
      [CHR 0xC2, CHR 0xA0],
      [CHR 0xE1, CHR 0x9A, CHR 0x80],
      [CHR 0xE2, CHR 0x80, CHR 0x80], [CHR 0xE2, CHR 0x80, CHR 0x81],
      [CHR 0xE2, CHR 0x80, CHR 0x82], [CHR 0xE2, CHR 0x80, CHR 0x83],
      [CHR 0xE2, CHR 0x80, CHR 0x84], [CHR 0xE2, CHR 0x80, CHR 0x85],
      [CHR 0xE2, CHR 0x80, CHR 0x86], [CHR 0xE2, CHR 0x80, CHR 0x87],
      [CHR 0xE2, CHR 0x80, CHR 0x88], [CHR 0xE2, CHR 0x80, CHR 0x89],
      [CHR 0xE2, CHR 0x80, CHR 0x8A],
      [CHR 0xE2, CHR 0x80, CHR 0xA8], [CHR 0xE2, CHR 0x80, CHR 0xA9],
      [CHR 0xE2, CHR 0x80, CHR 0xAF],
      [CHR 0xE2, CHR 0x81, CHR 0x9F],
      [CHR 0xE3, CHR 0x80, CHR 0x80],
      [CHR 0xEF, CHR 0xBB, CHR 0xBF]]"

text \<open>
  Removing from the front of a string every leading character of a list \<open>ws\<close> of
  (non-empty) byte sequences.
\<close>

fun strip_leading :: "string list \<Rightarrow> string \<Rightarrow> string" where
  "strip_leading ws [] = []"
| "strip_leading ws (c # cs) =
     (case find (\<lambda>w. take (length w) (c # cs) = w) ws of
        None \<Rightarrow> c # cs
      | Some w \<Rightarrow> strip_leading ws (drop (length w - 1) cs))"

definition trimStart :: "string \<Rightarrow> string" where
  "trimStart s = strip_leading white_space s"

definition trimEnd :: "string \<Rightarrow> string" where
  "trimEnd s = rev (strip_leading (map rev white_space) (rev s))"

definition trim :: "string \<Rightarrow> string" where
  "trim s = trimEnd (trimStart s)"

text \<open>Decimal digits of a number, as a template literal prints it.\<close>

fun string_of_nat :: "nat \<Rightarrow> string" where
  "string_of_nat n =
     (if n < 10 then [''0123456789'' ! n]
      else string_of_nat (n div 10) @ [''0123456789'' ! (n mod 10)])"

declare string_of_nat.simps [simp del]

definition hex_digit :: "nat \<Rightarrow> char" where
  "hex_digit n = ''0123456789ABCDEF'' ! (n mod 16)"

definition percent_byte :: "char \<Rightarrow> string" where
  "percent_byte c = [CHR ''%'', hex_digit (of_char c div 16), hex_digit (of_char c mod 16)]"

definition is_alnum :: "char \<Rightarrow> bool" where
  "is_alnum c = (c \<in> set (ascii_lower @ ascii_upper @ ''0123456789''))"

text \<open>
  \<^verbatim>\<open>encodeURIComponent\<close>: letters, digits and \<^verbatim>\<open>- _ . ! ~ * ' ( )\<close> are kept, every
  other byte of the UTF-8 text becomes \<^verbatim>\<open>%XX\<close>.
\<close>

definition encodeURIComponent :: "string \<Rightarrow> string" where
  "encodeURIComponent s =
     concat (map (\<lambda>c. if is_alnum c \<or> c \<in> set (CHR 0x27 # ''-_.!~*()'') then [c]
                        else percent_byte c) s)"

text \<open>
  \<^verbatim>\<open>new URLSearchParams(obj).toString()\<close>: the pairs as \<^verbatim>\<open>name=value\<close> joined by
  \<^verbatim>\<open>&\<close>, in the form-urlencoded byte serialisation (a space is \<^verbatim>\<open>+\<close>; letters,
  digits and \<^verbatim>\<open>* - . _\<close> are kept).
\<close>

definition form_urlencode :: "string \<Rightarrow> string" where
  "form_urlencode s =
     concat (map (\<lambda>c. if c = CHR '' '' then ''+''
                        else if is_alnum c \<or> c \<in> set ''*-._'' then [c]
                        else percent_byte c) s)"

fun join_amp :: "string list \<Rightarrow> string" where
  "join_amp [] = []"
| "join_amp [x] = x"
| "join_amp (x # y # ys) = x @ ''&'' @ join_amp (y # ys)"

definition URLSearchParams_toString :: "(string \<times> string) list \<Rightarrow> string" where
  "URLSearchParams_toString q =
     join_amp (map (\<lambda>(k, v). form_urlencode k @ ''='' @ form_urlencode v) q)"

text \<open>\<^verbatim>\<open>s.replace(pat, '')\<close> for a string pattern: the first occurrence is removed.\<close>

fun remove_first :: "string \<Rightarrow> string \<Rightarrow> string" where
  "remove_first pat [] = []"
| "remove_first pat (c # cs) =
     (if take (length pat) (c # cs) = pat then drop (length pat) (c # cs)
      else c # remove_first pat cs)"

text \<open>A word between single quotes, as the messages of the source have them.\<close>

definition quoted :: "string \<Rightarrow> string" where
  "quoted s = CHR 0x27 # s @ [CHR 0x27]"

text \<open>A string or \<^verbatim>\<open>undefined\<close>/\<^verbatim>\<open>null\<close> in a condition: true for a non-empty string.\<close>

definition truthy :: "string option \<Rightarrow> bool" where
  "truthy v = (case v of None \<Rightarrow> False | Some s \<Rightarrow> s \<noteq> [])"

subsection \<open>Exceptions and fetch\<close>

datatype js_error = Error string | TypeError string

text \<open>
  What \<^verbatim>\<open>await fetch(...)\<close> followed by reading the body gives: a rejection with its
  message, or a response with its status and body text. The network is a parameter.
\<close>

datatype fetch_outcome = Rejected string | Response nat string

record request =
  req_url :: string
  req_bearer :: "string option"

type_synonym network = "request \<Rightarrow> fetch_outcome"

definition response_ok :: "nat \<Rightarrow> bool" where
  "response_ok st = (200 \<le> st \<and> st \<le> 299)"

definition get :: "string \<Rightarrow> request" where
  "get url = \<lparr>req_url = url, req_bearer = None\<rparr>"

text \<open>A \<^verbatim>\<open>forEach\<close> whose callback may throw: the first exception ends the loop.\<close>

fun forEach :: "('s \<Rightarrow> 'a \<Rightarrow> js_error + 's) \<Rightarrow> 's \<Rightarrow> 'a list \<Rightarrow> js_error + 's" where
  "forEach f s [] = Inr s"
| "forEach f s (x # xs) = (case f s x of Inl e \<Rightarrow> Inl e | Inr s' \<Rightarrow> forEach f s' xs)"

section \<open>Availability aggregation (script.js, displayResults)\<close>

text \<open>
  One offer of the provider lists that the metadata API returns per country, and the
  part of a country's entry that the page reads: only \<^verbatim>\<open>flatrate\<close> (absent for a
  country with no subscription offer).
\<close>

record offer =
  provider_id :: nat
  provider_name :: string
  logo_path :: string

record country_offers =
  flatrate :: "offer list option"

text \<open>
  \<^verbatim>\<open>allProviders\<close>: the country codes in \<^verbatim>\<open>Object.keys\<close> order, each with its entry.
\<close>

type_synonym raw_availability = "(string \<times> country_offers) list"

text \<open>An entry of \<^verbatim>\<open>providerMap\<close>: \<^verbatim>\<open>{ name, logo, countries: new Set() }\<close>.\<close>

record provider_entry =
  name :: string
  logo :: string
  countries :: "string list"

type_synonym provider_map = "(nat \<times> provider_entry) list"

text \<open>The body of the inner \<^verbatim>\<open>forEach\<close>: create the entry on first sight, then add the country.\<close>

definition add_offer :: "string \<Rightarrow> provider_map \<Rightarrow> offer \<Rightarrow> provider_map" where
  "add_offer countryCode pm p =
     (let pm' = (case map_of pm (provider_id p) of
                   None \<Rightarrow> pm @ [(provider_id p,
                             \<lparr>name = provider_name p, logo = logo_path p, countries = []\<rparr>)]
                 | Some _ \<Rightarrow> pm)
      in map (\<lambda>(k, e). if k = provider_id p
                         then (k, e\<lparr>countries := set_add (countries e) countryCode\<rparr>)
                         else (k, e)) pm')"

text \<open>The body of the outer \<^verbatim>\<open>forEach\<close> over the country codes.\<close>

definition add_country :: "provider_map \<Rightarrow> string \<times> country_offers \<Rightarrow> provider_map" where
  "add_country pm entry =
     (case flatrate (snd entry) of
        None \<Rightarrow> pm
      | Some offers \<Rightarrow> foldl (add_offer (fst entry)) pm offers)"

definition build_provider_map :: "raw_availability \<Rightarrow> provider_map" where
  "build_provider_map allProviders = foldl add_country [] allProviders"

text \<open>The comparator \<^verbatim>\<open>(a, b) => b.countries.size - a.countries.size\<close>.\<close>

definition by_country_count :: "provider_entry \<Rightarrow> provider_entry \<Rightarrow> int" where
  "by_country_count a b = int (length (countries b)) - int (length (countries a))"

text \<open>
  \<^verbatim>\<open>sortedProviders\<close>: the sequence that \<^verbatim>\<open>displayResults\<close> renders. Both early returns
  (no country at all, no subscription offer at all) render no provider, which is the
  empty sequence here as well.
\<close>

definition sortedProviders :: "raw_availability \<Rightarrow> provider_entry list" where
  "sortedProviders allProviders =
     js_sort by_country_count (object_values (build_provider_map allProviders))"

text \<open>The same sequence with each entry's key (the provider id) kept beside it.\<close>

definition sortedProviders_keyed :: "raw_availability \<Rightarrow> (nat \<times> provider_entry) list" where
  "sortedProviders_keyed allProviders =
     js_sort (\<lambda>a b. by_country_count (snd a) (snd b))
       (own_property_order (build_provider_map allProviders))"

text \<open>The (country, provider id) pairs of the flatrate lists of the input.\<close>

definition flatrate_pairs :: "raw_availability \<Rightarrow> (string \<times> nat) list" where
  "flatrate_pairs allProviders =
     concat (map (\<lambda>entry. case flatrate (snd entry) of
                             None \<Rightarrow> []
                           | Some offers \<Rightarrow> map (\<lambda>p. (fst entry, provider_id p)) offers)
                 allProviders)"

text \<open>
  \<^verbatim>\<open>getCountryName\<close>: the region-name lookup of \<^verbatim>\<open>Intl.DisplayNames\<close> is a
  parameter, \<open>Inl\<close> where constructing it or calling \<^verbatim>\<open>of\<close> throws.
\<close>

definition getCountryName :: "(string \<Rightarrow> js_error + string) \<Rightarrow> string \<Rightarrow> string" where
  "getCountryName regionNames_of code =
     (case regionNames_of (toUpperCase code) of
        Inr n \<Rightarrow> n
      | Inl e \<Rightarrow> toUpperCase code)"

text \<open>
  \<^verbatim>\<open>sortedCountries\<close>: the countries of one provider entry, as rendered. The collation
  \<^verbatim>\<open>localeCompare\<close> is a parameter.
\<close>

definition sortedCountries ::
  "(string \<Rightarrow> js_error + string) \<Rightarrow> (string \<Rightarrow> string \<Rightarrow> int) \<Rightarrow> provider_entry \<Rightarrow> string list" where
  "sortedCountries regionNames_of localeCompare provider =
     js_sort (\<lambda>a b. localeCompare (getCountryName regionNames_of a) (getCountryName regionNames_of b))
       (countries provider)"

definition JUSTWATCH_SUPPORTED_COUNTRIES :: "string list" where
  "JUSTWATCH_SUPPORTED_COUNTRIES =
     [''AR'', ''AU'', ''AT'', ''BE'', ''BR'', ''CA'', ''CL'', ''CO'', ''CZ'', ''DK'', ''EC'',
      ''EE'', ''FI'', ''FR'', ''DE'', ''GR'', ''GT'', ''HK'', ''HU'', ''IS'', ''IN'', ''ID'',
      ''IE'', ''IL'', ''IT'', ''JP'', ''LV'', ''LT'', ''MY'', ''MX'', ''NL'', ''NZ'', ''NO'',
      ''PA'', ''PE'', ''PH'', ''PL'', ''PT'', ''RO'', ''RU'', ''SA'', ''SG'', ''SK'', ''ZA'',
      ''KR'', ''ES'', ''SE'', ''CH'', ''TW'', ''TH'', ''TR'', ''UA'', ''AE'', ''GB'', ''US'']"

text \<open>
  The country tags that get a dropdown and a click listener, in page order: for each
  provider, its sorted countries that are in the supported list.
\<close>

definition clickable_tags ::
  "(string \<Rightarrow> js_error + string) \<Rightarrow> (string \<Rightarrow> string \<Rightarrow> int) \<Rightarrow> raw_availability \<Rightarrow> string list" where
  "clickable_tags regionNames_of localeCompare allProviders =
     concat (map (\<lambda>provider.
                    filter (\<lambda>code. code \<in> set JUSTWATCH_SUPPORTED_COUNTRIES)
                      (sortedCountries regionNames_of localeCompare provider))
                 (sortedProviders allProviders))"

section \<open>The relay function (both variants)\<close>

subsection \<open>The watch page as the scraper queries it\<close>

text \<open>
  The scraper reads the parsed document through five queries. The page is modelled by
  what they return, in document order:
  \<^item> \<^verbatim>\<open>querySelector('.ott_title + p a[href*="justwatch.com"]')\<close> and its \<^verbatim>\<open>href\<close>;
  \<^item> \<^verbatim>\<open>querySelectorAll('.ott_provider')\<close>, the provider sections;
  \<^item> per section, \<^verbatim>\<open>querySelector('h3')\<close> with its \<^verbatim>\<open>textContent\<close>, and
    \<^verbatim>\<open>querySelectorAll('ul.providers > li')\<close>, the offer entries;
  \<^item> per entry, \<^verbatim>\<open>querySelector('a')\<close> with its \<^verbatim>\<open>title\<close> (the empty string when
    the attribute is missing), and the entry's \<^verbatim>\<open>classList\<close>.
  \<open>None\<close> is a query that found nothing. The parser (\<^verbatim>\<open>new JSDOM(html)\<close>) is a
  parameter of the scraper.
\<close>

record offer_item =
  anchor_title :: "string option"
  classList :: "string list"

record provider_section =
  heading :: "string option"
  offer_items :: "offer_item list"

record watch_page =
  justwatch_href :: "string option"
  ott_providers :: "provider_section list"

datatype tier = Q4K | HD | SD

fun tier_name :: "tier \<Rightarrow> string" where
  "tier_name Q4K = ''4K''"
| "tier_name HD = ''HD''"
| "tier_name SD = ''SD''"

text \<open>
  \<^verbatim>\<open>providersInfo\<close>: the own properties \<^verbatim>\<open>providerName: { stream: Set }\<close> in creation
  order. Converting each set to an array at the end keeps its insertion order, so one
  list serves for both. (JavaScript would list a provider whose name is an array index
  before the others; the statements below do not depend on the order of the properties.)
\<close>

type_synonym providers_info = "(string \<times> tier list) list"

record scrape_result =
  justWatchUrl :: "string option"
  providersInfo :: providers_info

definition empty_result :: scrape_result where
  "empty_result = \<lparr>justWatchUrl = None, providersInfo = []\<rparr>"

subsection \<open>The title pattern\<close>

text \<open>
  \<^verbatim>\<open>.\<close> matches anything but a line terminator: line feed, carriage return, U+2028 and
  U+2029 (the latter two as their UTF-8 bytes).
\<close>

fun has_line_terminator :: "string \<Rightarrow> bool" where
  "has_line_terminator [] = False"
| "has_line_terminator (c # cs) =
     (c = CHR 0x0A \<or> c = CHR 0x0D
      \<or> take 3 (c # cs) = [CHR 0xE2, CHR 0x80, CHR 0xA8]
      \<or> take 3 (c # cs) = [CHR 0xE2, CHR 0x80, CHR 0xA9]
      \<or> has_line_terminator cs)"

text \<open>
  \<^verbatim>\<open>title.match(/on (.*)$/)\<close>, its capture group: the pattern is tried at each
  position from the left, and matches where \<^verbatim>\<open>on \<close> stands and no line terminator
  follows up to the end of the title. \<open>None\<close> is \<^verbatim>\<open>null\<close>.
\<close>

fun match_on :: "string \<Rightarrow> string option" where
  "match_on [] = None"
| "match_on (c # cs) =
     (if take 3 (c # cs) = ''on '' \<and> \<not> has_line_terminator (drop 3 (c # cs))
      then Some (drop 3 (c # cs))
      else match_on cs)"

subsection \<open>Collecting the quality tiers\<close>

text \<open>
  The names that \<^verbatim>\<open>providersInfo[providerName]\<close> finds on \<^verbatim>\<open>Object.prototype\<close> when the
  object has no such property of its own: all of them truthy, none with a \<^verbatim>\<open>stream\<close>.
\<close>

definition object_prototype_keys :: "string list" where
  "object_prototype_keys =
     [''constructor'', ''__defineGetter__'', ''__defineSetter__'', ''hasOwnProperty'',
      ''__lookupGetter__'', ''__lookupSetter__'', ''isPrototypeOf'', ''propertyIsEnumerable'',
      ''toString'', ''valueOf'', ''__proto__'', ''toLocaleString'']"

text \<open>The three \<^verbatim>\<open>classList.contains\<close> tests of one entry, in the order of the source.\<close>

definition quality_marks :: "string list \<Rightarrow> tier list" where
  "quality_marks classes =
     (if ''ott_filter_4k'' \<in> set classes then [Q4K] else [])
     @ (if ''ott_filter_hd'' \<in> set classes then [HD] else [])
     @ (if ''ott_filter_sd'' \<in> set classes then [SD] else [])"

text \<open>The provider name of an entry, or \<open>None\<close> where the callback returns early.\<close>

definition provider_of :: "offer_item \<Rightarrow> string option" where
  "provider_of li =
     (case anchor_title li of
        None \<Rightarrow> None
      | Some title \<Rightarrow>
          if title = [] then None
          else (case match_on title of
                  None \<Rightarrow> None
                | Some capture \<Rightarrow> if capture = [] then None else Some capture))"

text \<open>The callback of \<^verbatim>\<open>offerElements.forEach\<close>.\<close>

definition add_quality :: "providers_info \<Rightarrow> offer_item \<Rightarrow> js_error + providers_info" where
  "add_quality info li =
     (case provider_of li of
        None \<Rightarrow> Inr info
      | Some providerName \<Rightarrow>
          let info' = (if providerName \<in> fst ` set info \<or> providerName \<in> set object_prototype_keys
                       then info else info @ [(providerName, [])])
          in if providerName \<in> fst ` set info'
             then Inr (map (\<lambda>(k, stream). if k = providerName
                                            then (k, foldl set_add stream (quality_marks (classList li)))
                                            else (k, stream)) info')
             else if quality_marks (classList li) = [] then Inr info'
             else Inl (TypeError (''Cannot read properties of undefined (reading '' @ quoted ''add'' @ '')'')))"

text \<open>The callback of \<^verbatim>\<open>providerSections.forEach\<close>.\<close>

definition add_section :: "providers_info \<Rightarrow> provider_section \<Rightarrow> js_error + providers_info" where
  "add_section info section =
     (case heading section of
        None \<Rightarrow> Inr info
      | Some textContent \<Rightarrow>
          if toLowerCase (trim textContent) \<noteq> ''stream'' then Inr info
          else forEach add_quality info (offer_items section))"

definition extract_page :: "watch_page \<Rightarrow> js_error + scrape_result" where
  "extract_page doc =
     (case forEach add_section [] (ott_providers doc) of
        Inl e \<Rightarrow> Inl e
      | Inr info \<Rightarrow> Inr \<lparr>justWatchUrl = justwatch_href doc, providersInfo = info\<rparr>)"

subsection \<open>scrapeTmdbWatchPage\<close>

text \<open>The \<^verbatim>\<open>try\<close> block from the response on, shared by both variants.\<close>

definition scrape_try ::
  "(string \<Rightarrow> js_error + watch_page) \<Rightarrow> fetch_outcome \<Rightarrow> js_error + scrape_result" where
  "scrape_try jsdom outcome =
     (case outcome of
        Rejected msg \<Rightarrow> Inl (Error msg)
      | Response st htmlContent \<Rightarrow>
          if \<not> response_ok st
          then Inl (Error (''Fetch failed with status: '' @ string_of_nat st))
          else (case jsdom htmlContent of
                  Inl e \<Rightarrow> Inl e
                | Inr doc \<Rightarrow> extract_page doc))"

text \<open>The \<^verbatim>\<open>catch\<close> block: log, and return empty data.\<close>

definition scrape_catch :: "js_error + scrape_result \<Rightarrow> js_error + scrape_result" where
  "scrape_catch r = (case r of Inl e \<Rightarrow> Inr empty_result | Inr v \<Rightarrow> Inr v)"

text \<open>
  Both variants return what the \<^verbatim>\<open>async\<close> function settles with (\<open>Inl\<close> would be a
  rejection) and the requests they issued, in order. The first fetches the URL itself,
  the second fetches it through the proxy.
\<close>

definition scrapeTmdbWatchPage_direct ::
  "network \<Rightarrow> (string \<Rightarrow> js_error + watch_page) \<Rightarrow> string
   \<Rightarrow> (js_error + scrape_result) \<times> request list" where
  "scrapeTmdbWatchPage_direct net jsdom url =
     (scrape_catch (scrape_try jsdom (net (get url))), [get url])"

definition scrapeTmdbWatchPage_proxied ::
  "network \<Rightarrow> (string \<Rightarrow> js_error + watch_page) \<Rightarrow> string
   \<Rightarrow> (js_error + scrape_result) \<times> request list" where
  "scrapeTmdbWatchPage_proxied net jsdom url =
     (let proxyUrl = ''https://corsproxy.io/?'' @ encodeURIComponent url
      in (scrape_catch (scrape_try jsdom (net (get proxyUrl))), [get proxyUrl]))"

subsection \<open>The handler\<close>

datatype 'j response_body = Text string | Json 'j | Scraped scrape_result

record 'j http_response =
  status :: nat
  content_type :: "string option"
  body :: "'j response_body"

definition error_message :: "js_error \<Rightarrow> string" where
  "error_message e = (case e of Error m \<Rightarrow> m | TypeError m \<Rightarrow> m)"

text \<open>The handler's own \<^verbatim>\<open>catch\<close> block.\<close>

definition error_response :: "js_error \<Rightarrow> 'j http_response" where
  "error_response e =
     \<lparr>status = 500, content_type = None,
      body = Text (''An error occurred: '' @ error_message e)\<rparr>"

text \<open>The branch that forwards a metadata request, with the requests it issues.\<close>

definition forward_api ::
  "network \<Rightarrow> (string \<Rightarrow> js_error + 'j) \<Rightarrow> string \<Rightarrow> string \<Rightarrow> (string \<times> string) list
   \<Rightarrow> 'j http_response \<times> request list" where
  "forward_api net json key endpoint query =
     (let queryString = remove_first (''endpoint='' @ endpoint @ ''&'') (URLSearchParams_toString query);
          apiUrl = ''https://api.themoviedb.org/3/'' @ endpoint @ ''?'' @ queryString;
          req = \<lparr>req_url = apiUrl, req_bearer = Some key\<rparr>
      in (case net req of
            Rejected msg \<Rightarrow> error_response (Error msg)
          | Response st text \<Rightarrow>
              if \<not> response_ok st
              then error_response
                     (Error (''TMDB API request failed with status: '' @ string_of_nat st))
              else (case json text of
                      Inl e \<Rightarrow> error_response e
                    | Inr data \<Rightarrow>
                        \<lparr>status = 200, content_type = Some ''application/json'',
                         body = Json data\<rparr>),
          [req]))"

text \<open>
  \<^verbatim>\<open>module.exports\<close>: \<open>env_key\<close> is \<^verbatim>\<open>process.env.TMDB_API_KEY\<close>, \<open>query\<close> is
  \<^verbatim>\<open>req.query\<close>, \<open>scrape\<close> is the file's own \<^verbatim>\<open>scrapeTmdbWatchPage\<close>. The result is
  \<^verbatim>\<open>context.res\<close> and the requests issued.
\<close>

definition relay ::
  "network \<Rightarrow> (string \<Rightarrow> js_error + 'j)
   \<Rightarrow> (string \<Rightarrow> (js_error + scrape_result) \<times> request list)
   \<Rightarrow> string option \<Rightarrow> (string \<times> string) list
   \<Rightarrow> 'j http_response \<times> request list" where
  "relay net json scrape env_key query =
     (if \<not> truthy env_key
      then (\<lparr>status = 500, content_type = None,
             body = Text ''Server configuration error: TMDB_API_KEY is not set.''\<rparr>, [])
      else if truthy (map_of query ''endpoint'')
      then forward_api net json (the env_key) (the (map_of query ''endpoint'')) query
      else if truthy (map_of query ''url'')
      then (case scrape (the (map_of query ''url'')) of
              (Inl e, reqs) \<Rightarrow> (error_response e, reqs)
            | (Inr scrapedData, reqs) \<Rightarrow>
                (\<lparr>status = 200, content_type = Some ''application/json'',
                  body = Scraped scrapedData\<rparr>, reqs))
      else (\<lparr>status = 400, content_type = None,
             body = Text (''Bad Request: Please provide either an '' @ quoted ''endpoint''
                          @ '' or a '' @ quoted ''url'' @ '' query parameter.'')\<rparr>,
            []))"

section \<open>Enrichment in the browser (script.js)\<close>

subsection \<open>scrapeTmdbWatchPage, the client side\<close>

text \<open>
  The browser asks the relay to scrape; \<open>json\<close> reads the response body as the data
  the relay sent.
\<close>

definition client_scrape ::
  "network \<Rightarrow> (string \<Rightarrow> js_error + scrape_result) \<Rightarrow> string
   \<Rightarrow> (js_error + scrape_result) \<times> request list" where
  "client_scrape net json tmdbWatchUrl =
     (let functionUrl = ''/api/tmdb?url='' @ encodeURIComponent tmdbWatchUrl
      in (scrape_catch
            (case net (get functionUrl) of
               Rejected msg \<Rightarrow> Inl (Error msg)
             | Response st text \<Rightarrow>
                 if \<not> response_ok st then Inr empty_result else json text),
          [get functionUrl]))"

subsection \<open>updateDropdownContent\<close>

datatype load_status = Loading | Loaded

text \<open>
  The quality part of a dropdown: the loading text, the "no info" text, or one item per
  provider with its quality tags in order.
\<close>

datatype quality_view = QualityLoading | QualityNone | QualityItems "(string \<times> string list) list"

text \<open>
  A dropdown as far as the listeners read and write it: whether it is open (the class
  \<^verbatim>\<open>show\<close>; the tag's \<^verbatim>\<open>z-boost\<close> goes with it), the TMDB link, the JustWatch link with
  its \<^verbatim>\<open>data-status\<close>, and the quality container with its own.
\<close>

record dropdown =
  shown :: bool
  tmdb_href :: string
  jw_status :: load_status
  jw_href :: string
  jw_text :: string
  quality :: quality_view
  quality_status :: load_status

definition tmdbLinkUrl :: "string \<Rightarrow> nat \<Rightarrow> string \<Rightarrow> string" where
  "tmdbLinkUrl mediaType tmdbId code =
     ''https://www.themoviedb.org/'' @ mediaType @ ''/'' @ string_of_nat tmdbId
     @ ''/watch?locale='' @ code"

text \<open>\<^verbatim>\<open>createDropdown\<close>: closed, both parts loading.\<close>

definition createDropdown :: "string \<Rightarrow> nat \<Rightarrow> string \<Rightarrow> dropdown" where
  "createDropdown mediaType tmdbId code =
     \<lparr>shown = False, tmdb_href = tmdbLinkUrl mediaType tmdbId code,
      jw_status = Loading, jw_href = ''#'', jw_text = ''Loading JustWatch...'',
      quality = QualityLoading, quality_status = Loading\<rparr>"

text \<open>
  The loop over \<^verbatim>\<open>Object.keys(providersInfo).sort()\<close>: providers with an empty
  \<^verbatim>\<open>stream\<close> get no item; the tags follow the array order of \<^verbatim>\<open>stream\<close>. The names
  are sorted as byte strings, which is the order of the default sort for names without
  characters beyond the Basic Multilingual Plane.
\<close>

definition quality_items :: "providers_info \<Rightarrow> (string \<times> string list) list" where
  "quality_items info =
     concat (map (\<lambda>providerName.
                    case map_of info providerName of
                      None \<Rightarrow> []
                    | Some stream \<Rightarrow>
                        if stream = [] then [] else [(providerName, map tier_name stream)])
                 (sort (map fst info)))"

definition updateDropdownContent :: "dropdown \<Rightarrow> scrape_result \<Rightarrow> dropdown" where
  "updateDropdownContent d r =
     d\<lparr>jw_href := (if truthy (justWatchUrl r) then the (justWatchUrl r) else ''#''),
       jw_text := (if truthy (justWatchUrl r) then ''View on JustWatch''
                   else ''JustWatch link not found''),
       jw_status := Loaded,
       quality := (if providersInfo r \<noteq> [] then QualityItems (quality_items (providersInfo r))
                   else QualityNone),
       quality_status := Loaded\<rparr>"

subsection \<open>The click listener of a country tag\<close>

text \<open>
  A clickable country tag: the country code that its listener closes over, and its
  dropdown. \<^verbatim>\<open>displayResults\<close> makes one for every supported country of every provider.
\<close>

record country_tag =
  tag_code :: string
  tag_dropdown :: dropdown

record title_context =
  mediaType :: string
  tmdbId :: nat

text \<open>
  The state of one rendered result: the clickable tags in page order, the tags whose
  scrape is awaited (one entry per call), and the scrapes started so far, each with the
  tag that started it and the URL it was asked for.
\<close>

record page_state =
  tags :: "country_tag list"
  awaiting :: "nat list"
  started :: "(nat \<times> string) list"

definition render_tags :: "title_context \<Rightarrow> string list \<Rightarrow> page_state" where
  "render_tags ctx codes =
     \<lparr>tags = map (\<lambda>code. \<lparr>tag_code = code,
                             tag_dropdown = createDropdown (mediaType ctx) (tmdbId ctx) code\<rparr>) codes,
      awaiting = [], started = []\<rparr>"

text \<open>
  What can happen to the page: a click on tag \<open>i\<close> (or inside its dropdown, which
  bubbles to the tag), a click anywhere else, and the awaited scrape of tag \<open>i\<close>
  returning its data.
\<close>

datatype event = ClickTag nat | ClickElsewhere | ScrapeReturns nat scrape_result

definition set_shown :: "bool \<Rightarrow> country_tag \<Rightarrow> country_tag" where
  "set_shown b t = t\<lparr>tag_dropdown := (tag_dropdown t)\<lparr>shown := b\<rparr>\<rparr>"

text \<open>The document's listener closes the first open dropdown.\<close>

fun close_first :: "country_tag list \<Rightarrow> country_tag list" where
  "close_first [] = []"
| "close_first (t # ts) =
     (if shown (tag_dropdown t) then set_shown False t # ts else t # close_first ts)"

fun step :: "title_context \<Rightarrow> page_state \<Rightarrow> event \<Rightarrow> page_state" where
  "step ctx s (ClickTag i) =
     (if i < length (tags s) then
        let wasOpen = shown (tag_dropdown (tags s ! i));
            closed = map (set_shown False) (tags s);
            opened = closed[i := set_shown True (closed ! i)]
        in if wasOpen then s\<lparr>tags := closed\<rparr>
           else if jw_status (tag_dropdown (tags s ! i)) = Loading
           then s\<lparr>tags := opened,
                  awaiting := awaiting s @ [i],
                  started := started s
                    @ [(i, tmdbLinkUrl (mediaType ctx) (tmdbId ctx) (tag_code (tags s ! i)))]\<rparr>
           else s\<lparr>tags := opened\<rparr>
      else s)"
| "step ctx s ClickElsewhere = s\<lparr>tags := close_first (tags s)\<rparr>"
| "step ctx s (ScrapeReturns i r) =
     (if i \<in> set (awaiting s) \<and> i < length (tags s)
      then s\<lparr>tags := (tags s)[i := (tags s ! i)
                         \<lparr>tag_dropdown := updateDropdownContent (tag_dropdown (tags s ! i)) r\<rparr>],
             awaiting := remove1 i (awaiting s)\<rparr>
      else s)"

definition run :: "title_context \<Rightarrow> page_state \<Rightarrow> event list \<Rightarrow> page_state" where
  "run ctx s events = foldl (step ctx) s events"

section \<open>Auxiliary notions for the proofs\<close>

text \<open>The (country, provider id) pairs that a provider map holds.\<close>

definition pairs_in :: "provider_map \<Rightarrow> (string \<times> nat) set" where
  "pairs_in pm = (\<Union>kv \<in> set pm. (\<lambda>c. (c, fst kv)) ` set (countries (snd kv)))"

text \<open>Adding a country to the entry of one key.\<close>

definition mark :: "string \<Rightarrow> nat \<Rightarrow> provider_map \<Rightarrow> provider_map" where
  "mark c k pm =
     map (\<lambda>(k', e). if k' = k then (k', e\<lparr>countries := set_add (countries e) c\<rparr>) else (k', e)) pm"

definition entries_ok :: "provider_map \<Rightarrow> bool" where
  "entries_ok pm = (distinct (map fst pm) \<and> (\<forall>kv \<in> set pm. distinct (countries (snd kv))))"

text \<open>
  The order of ties as the specification words it, for comparison with the code: the
  provider ids in the order in which the traversal of the input first meets them, and
  the statement that entries with equally many countries appear in that order.
\<close>

definition encounter_order :: "raw_availability \<Rightarrow> nat list" where
  "encounter_order allProviders = rev (remdups (rev (map snd (flatrate_pairs allProviders))))"

definition first_seen_before :: "raw_availability \<Rightarrow> nat \<Rightarrow> nat \<Rightarrow> bool" where
  "first_seen_before allProviders a b =
     (a \<in> set (takeWhile (\<lambda>k. k \<noteq> b) (encounter_order allProviders)))"

definition ties_in_encounter_order :: "raw_availability \<Rightarrow> bool" where
  "ties_in_encounter_order allProviders =
     sorted_wrt (\<lambda>a b. length (countries (snd a)) = length (countries (snd b))
                        \<longrightarrow> first_seen_before allProviders (fst a) (fst b))
       (sortedProviders_keyed allProviders)"

text \<open>The order that the stable sort by size leaves on a sequence sorted by key.\<close>

definition keyed_before :: "nat \<times> provider_entry \<Rightarrow> nat \<times> provider_entry \<Rightarrow> bool" where
  "keyed_before a b =
     (length (countries (snd b)) < length (countries (snd a))
      \<or> (length (countries (snd a)) = length (countries (snd b)) \<and> fst a < fst b))"

text \<open>One country in which two providers tie; the one with the larger id is listed first.\<close>

definition example_tie :: raw_availability where
  "example_tie =
     [(''US'', \<lparr>flatrate = Some
         [\<lparr>provider_id = 9, provider_name = ''Disney+'', logo_path = ''/d.jpg''\<rparr>,
          \<lparr>provider_id = 8, provider_name = ''Netflix'', logo_path = ''/n.jpg''\<rparr>]\<rparr>)]"

text \<open>
  A collation and a region-name table to run the country sort on: comparison by code
  units, and names for two codes only.
\<close>

definition code_unit_compare :: "string \<Rightarrow> string \<Rightarrow> int" where
  "code_unit_compare a b = (if a < b then - 1 else if a = b then 0 else 1)"

definition example_names :: "string \<Rightarrow> js_error + string" where
  "example_names code =
     (if code = ''DE'' then Inr ''Germany''
      else if code = ''CH'' then Inr ''Switzerland''
      else Inl (Error ''Invalid argument''))"


text \<open>
  An environment to run the relay in: a watch-page URL, an origin that answers every
  request with 403, a parser that finds nothing, and a JSON reader for bodies without
  content.
\<close>

definition example_url :: string where
  "example_url = ''https://www.themoviedb.org/movie/603/watch?locale=US''"

definition blocked :: network where
  "blocked r = Response 403 ''Forbidden''"

definition no_jsdom :: "string \<Rightarrow> js_error + watch_page" where
  "no_jsdom html = Inr \<lparr>justwatch_href = None, ott_providers = []\<rparr>"

definition no_json :: "string \<Rightarrow> js_error + unit" where
  "no_json text = Inr ()"

definition example_scraper :: "string \<Rightarrow> (js_error + scrape_result) \<times> request list" where
  "example_scraper = scrapeTmdbWatchPage_direct blocked no_jsdom"

text \<open>The sections that the scraper processes, and their entries in page order.\<close>

definition is_stream :: "provider_section \<Rightarrow> bool" where
  "is_stream section =
     (case heading section of
        None \<Rightarrow> False
      | Some textContent \<Rightarrow> toLowerCase (trim textContent) = ''stream'')"

definition stream_entries :: "watch_page \<Rightarrow> offer_item list" where
  "stream_entries doc = concat (map offer_items (filter is_stream (ott_providers doc)))"

text \<open>The markers that the entries of one provider add, in page order.\<close>

definition marks_for :: "string \<Rightarrow> offer_item list \<Rightarrow> tier list" where
  "marks_for p entries =
     concat (map (\<lambda>li. quality_marks (classList li))
                 (filter (\<lambda>li. provider_of li = Some p) entries))"

text \<open>The tiers collected for a provider so far (none when it has no property yet).\<close>

definition tiers_of :: "providers_info \<Rightarrow> string \<Rightarrow> tier list" where
  "tiers_of info p = (case map_of info p of None \<Rightarrow> [] | Some stream \<Rightarrow> stream)"

text \<open>Keys and tiers without duplicates.\<close>

definition info_ok :: "providers_info \<Rightarrow> bool" where
  "info_ok info = (distinct (map fst info) \<and> (\<forall>entry \<in> set info. distinct (snd entry)))"

text \<open>Adding markers to the set of one key.\<close>

definition put :: "string \<Rightarrow> tier list \<Rightarrow> providers_info \<Rightarrow> providers_info" where
  "put p marks info =
     map (\<lambda>(k, stream). if k = p then (k, foldl set_add stream marks) else (k, stream)) info"

text \<open>A well-formed result: one property per provider name, no tier twice.\<close>

definition well_formed :: "scrape_result \<Rightarrow> bool" where
  "well_formed r =
     (distinct (map fst (providersInfo r)) \<and> (\<forall>entry \<in> set (providersInfo r). distinct (snd entry)))"

text \<open>
  An entry on which the callback throws: the name is found on \<^verbatim>\<open>Object.prototype\<close>,
  so no property is created for it, and the first quality marker calls \<^verbatim>\<open>add\<close> on a
  \<^verbatim>\<open>stream\<close> that is \<^verbatim>\<open>undefined\<close>.
\<close>

definition throws :: "offer_item \<Rightarrow> bool" where
  "throws li =
     (case provider_of li of
        None \<Rightarrow> False
      | Some p \<Rightarrow> p \<in> set object_prototype_keys \<and> quality_marks (classList li) \<noteq> [])"

text \<open>The provider names for which a list of entries creates a property.\<close>

definition provider_names :: "offer_item list \<Rightarrow> string set" where
  "provider_names entries =
     {p. p \<notin> set object_prototype_keys \<and> (\<exists>li \<in> set entries. provider_of li = Some p)}"

text \<open>No own property shadows a name of \<^verbatim>\<open>Object.prototype\<close>.\<close>

definition no_own_prototype_key :: "providers_info \<Rightarrow> bool" where
  "no_own_prototype_key info = (fst ` set info \<inter> set object_prototype_keys = {})"

text \<open>
  The canonical order as the specification words it, SD before HD before 4K, for
  comparison with the code.
\<close>

fun tier_rank :: "tier \<Rightarrow> nat" where
  "tier_rank SD = 0"
| "tier_rank HD = 1"
| "tier_rank Q4K = 2"

definition canonical_order :: "tier list \<Rightarrow> bool" where
  "canonical_order ts = sorted_wrt (\<lambda>a b. tier_rank a < tier_rank b) ts"

text \<open>
  Pages to run the scraper on: the scenario of the specification (one stream entry with
  the HD and 4K markers), a page with gaps, a page with a provider named like a
  property of \<^verbatim>\<open>Object.prototype\<close>, and a page whose stream heading ends in a
  no-break space (U+00A0).
\<close>

definition hulu_page :: watch_page where
  "hulu_page =
     \<lparr>justwatch_href = Some ''https://www.justwatch.com/us/movie/foo'',
      ott_providers =
        [\<lparr>heading = Some ''Stream'',
          offer_items = [\<lparr>anchor_title = Some ''Watch Foo on Hulu'',
                           classList = [''ott_filter_hd'', ''ott_filter_4k'']\<rparr>]\<rparr>,
         \<lparr>heading = Some ''Rent'',
          offer_items = [\<lparr>anchor_title = Some ''Watch Foo on Apple TV'',
                           classList = [''ott_filter_sd'']\<rparr>]\<rparr>]\<rparr>"

definition gaps_page :: watch_page where
  "gaps_page =
     \<lparr>justwatch_href = None,
      ott_providers =
        [\<lparr>heading = None, offer_items = []\<rparr>,
         \<lparr>heading = Some ''Stream'',
          offer_items = [\<lparr>anchor_title = None, classList = []\<rparr>,
                         \<lparr>anchor_title = Some ''Watch Foo on Hulu'', classList = [''ott_filter_hd'']\<rparr>]\<rparr>]\<rparr>"

definition proto_page :: watch_page where
  "proto_page =
     \<lparr>justwatch_href = Some ''https://www.justwatch.com/us/movie/foo'',
      ott_providers =
        [\<lparr>heading = Some ''Stream'',
          offer_items = [\<lparr>anchor_title = Some ''Watch Foo on Hulu'', classList = [''ott_filter_hd'']\<rparr>,
                         \<lparr>anchor_title = Some ''Watch Foo on constructor'', classList = [''ott_filter_hd'']\<rparr>]\<rparr>]\<rparr>"

definition nbsp_heading :: string where
  "nbsp_heading = ''Stream'' @ [CHR 0xC2, CHR 0xA0]"

definition nbsp_page :: watch_page where
  "nbsp_page =
     \<lparr>justwatch_href = None,
      ott_providers =
        [\<lparr>heading = Some nbsp_heading,
          offer_items = [\<lparr>anchor_title = Some ''Watch Foo on Hulu'', classList = [''ott_filter_hd'']\<rparr>]\<rparr>]\<rparr>"

text \<open>An origin that answers 200, and a parser that returns a given page.\<close>

definition ok_network :: network where
  "ok_network r = Response 200 ''<!DOCTYPE html>''"

definition parses_to :: "watch_page \<Rightarrow> string \<Rightarrow> js_error + watch_page" where
  "parses_to doc html = Inr doc"



definition moon_entry :: offer_item where
  "moon_entry = \<lparr>anchor_title = Some ''Watch Moon on Netflix'', classList = [''ott_filter_hd'']\<rparr>"

text \<open>What a dropdown shows, apart from being open or closed.\<close>

definition shown_detail :: "dropdown \<Rightarrow> string \<times> string \<times> string \<times> quality_view" where
  "shown_detail d = (tmdb_href d, jw_href d, jw_text d, quality d)"

text \<open>A tag whose enrichment has completed: loaded, and no scrape awaited.\<close>

definition settled :: "page_state \<Rightarrow> nat \<Rightarrow> bool" where
  "settled s i =
     (i < length (tags s) \<and> jw_status (tag_dropdown (tags s ! i)) = Loaded
      \<and> i \<notin> set (awaiting s))"

text \<open>The scrapes that a tag has started, by URL.\<close>

definition started_by :: "page_state \<Rightarrow> nat \<Rightarrow> string list" where
  "started_by s i = map snd (filter (\<lambda>entry. fst entry = i) (started s))"

text \<open>A title that two providers offer in the US: two US tags on the page.\<close>

definition example_two_providers :: raw_availability where
  "example_two_providers =
     [(''US'', \<lparr>flatrate = Some
         [\<lparr>provider_id = 8, provider_name = ''Netflix'', logo_path = ''/n.jpg''\<rparr>,
          \<lparr>provider_id = 15, provider_name = ''Hulu'', logo_path = ''/h.jpg''\<rparr>]\<rparr>)]"

definition example_title :: title_context where
  "example_title = \<lparr>mediaType = ''movie'', tmdbId = 603\<rparr>"

definition example_results :: page_state where
  "example_results =
     render_tags example_title (clickable_tags example_names code_unit_compare example_two_providers)"

text \<open>
  The scenario of the specification: Netflix in the US and in GB, Disney+ in France, and a
  country without subscription offers.
\<close>

definition example_scenario :: raw_availability where
  "example_scenario =
     [(''US'', \<lparr>flatrate = Some [\<lparr>provider_id = 8, provider_name = ''Netflix'', logo_path = ''/n.jpg''\<rparr>]\<rparr>),
      (''GB'', \<lparr>flatrate = Some [\<lparr>provider_id = 8, provider_name = ''Netflix'', logo_path = ''/n.jpg''\<rparr>]\<rparr>),
      (''FR'', \<lparr>flatrate = Some [\<lparr>provider_id = 9, provider_name = ''Disney+'', logo_path = ''/d.jpg''\<rparr>]\<rparr>),
      (''JP'', \<lparr>flatrate = None\<rparr>)]"

section \<open>Properties of the aggregation\<close>

lemma set_insort_cmp: "set (insort_cmp cmp x ys) = insert x (set ys)"
  by (induction ys) auto

lemma set_set_add: "set (set_add s x) = insert x (set s)"
  by (auto simp: set_add_def)

lemma distinct_set_add: "distinct s \<Longrightarrow> distinct (set_add s x)"
  by (auto simp: set_add_def)

lemma mset_insort_cmp: "mset (insort_cmp cmp x ys) = add_mset x (mset ys)"
  by (induction ys) auto

lemma mset_js_sort: "mset (js_sort cmp xs) = mset xs"
  by (induction xs) (auto simp: js_sort_def mset_insort_cmp)

lemma mset_own_property_order: "mset (own_property_order m) = mset m"
  by (simp add: own_property_order_def)

lemma pairs_in_Nil: "pairs_in [] = {}" by (simp add: pairs_in_def)
lemma pairs_in_Cons: "pairs_in (kv # pm) = (\<lambda>c. (c, fst kv)) ` set (countries (snd kv)) \<union> pairs_in pm"
  by (simp add: pairs_in_def)
lemma pairs_in_append: "pairs_in (xs @ ys) = pairs_in xs \<union> pairs_in ys"
  by (simp add: pairs_in_def)

lemma pairs_in_mark:
  "pairs_in (mark c k pm) = pairs_in pm \<union> (if k \<in> fst ` set pm then {(c, k)} else {})"
  by (induction pm) (auto simp: mark_def pairs_in_Nil pairs_in_Cons set_set_add split: prod.splits)

lemma keys_mark: "map fst (mark c k pm) = map fst pm"
  by (induction pm) (auto simp: mark_def split: prod.splits)

lemma add_offer_mark:
  "add_offer c pm p = mark c (provider_id p)
     (if provider_id p \<in> fst ` set pm then pm
      else pm @ [(provider_id p, \<lparr>name = provider_name p, logo = logo_path p, countries = []\<rparr>)])"
  by (auto simp: add_offer_def mark_def Let_def map_of_eq_None_iff split: option.splits)
     (metis map_of_eq_None_iff option.distinct(1))+

lemma pairs_in_add_offer: "pairs_in (add_offer c pm p) = insert (c, provider_id p) (pairs_in pm)"
  by (auto simp: add_offer_mark pairs_in_mark pairs_in_append pairs_in_Cons pairs_in_Nil)


lemma keys_add_offer:
  "set (map fst (add_offer c pm p)) = insert (provider_id p) (set (map fst pm))"
  by (auto simp: add_offer_mark keys_mark)

lemma entries_ok_mark: "entries_ok pm \<Longrightarrow> entries_ok (mark c k pm)"
  by (auto simp: entries_ok_def keys_mark) (auto simp: mark_def distinct_set_add split: if_splits)

lemma entries_ok_add_offer: "entries_ok pm \<Longrightarrow> entries_ok (add_offer c pm p)"
  unfolding add_offer_mark
  by (rule entries_ok_mark) (auto simp: entries_ok_def)

lemma foldl_add_offer:
  "entries_ok pm \<Longrightarrow>
   entries_ok (foldl (add_offer c) pm offers) \<and>
   pairs_in (foldl (add_offer c) pm offers) = pairs_in pm \<union> (\<lambda>p. (c, provider_id p)) ` set offers"
  by (induction offers arbitrary: pm) (auto simp: entries_ok_add_offer pairs_in_add_offer)

lemma add_country_ok:
  "entries_ok pm \<Longrightarrow>
   entries_ok (add_country pm entry) \<and>
   pairs_in (add_country pm entry) = pairs_in pm \<union> set (flatrate_pairs [entry])"
  using foldl_add_offer [of pm "fst entry"]
  by (auto simp: add_country_def flatrate_pairs_def split: option.splits)

lemma flatrate_pairs_Cons:
  "flatrate_pairs (entry # raw) = flatrate_pairs [entry] @ flatrate_pairs raw"
  by (simp add: flatrate_pairs_def)

lemma foldl_add_country:
  "entries_ok pm \<Longrightarrow>
   entries_ok (foldl add_country pm raw) \<and>
   pairs_in (foldl add_country pm raw) = pairs_in pm \<union> set (flatrate_pairs raw)"
proof (induction raw arbitrary: pm)
  case Nil
  then show ?case by (simp add: flatrate_pairs_def)
next
  case (Cons entry raw)
  from add_country_ok [OF Cons.prems, of entry]
  have ok: "entries_ok (add_country pm entry)"
    and pairs: "pairs_in (add_country pm entry) = pairs_in pm \<union> set (flatrate_pairs [entry])"
    by simp_all
  from Cons.IH [OF ok] pairs show ?case
    by (simp add: flatrate_pairs_Cons [of entry raw] Un_assoc)
qed

lemma build_provider_map_ok:
  "entries_ok (build_provider_map raw)"
  "pairs_in (build_provider_map raw) = set (flatrate_pairs raw)"
  using foldl_add_country [of "[]" raw]
  by (simp_all add: build_provider_map_def entries_ok_def pairs_in_Nil)

lemma sum_sizes_pairs:
  "entries_ok pm \<Longrightarrow> (\<Sum>kv\<leftarrow>pm. length (countries (snd kv))) = card (pairs_in pm)"
proof (induction pm)
  case Nil
  show ?case by (simp add: pairs_in_Nil)
next
  case (Cons kv pm)
  let ?A = "(\<lambda>c. (c, fst kv)) ` set (countries (snd kv))"
  from Cons.prems have ok: "entries_ok pm" and fresh: "fst kv \<notin> fst ` set pm"
    and d: "distinct (countries (snd kv))"
    by (auto simp: entries_ok_def)
  have fin: "finite (pairs_in pm)" by (simp add: pairs_in_def)
  have disj: "?A \<inter> pairs_in pm = {}"
    using fresh by (auto simp: pairs_in_def)
  have "card ?A = length (countries (snd kv))"
    using d by (simp add: card_image inj_on_def distinct_card)
  with Cons.IH [OF ok] disj fin show ?case
    by (simp add: pairs_in_Cons card_Un_disjoint)
qed

lemma sum_list_sortedProviders:
  "(\<Sum>e\<leftarrow>sortedProviders raw. length (countries e))
   = (\<Sum>kv\<leftarrow>build_provider_map raw. length (countries (snd kv)))"
proof -
  have "mset (sortedProviders raw) = image_mset snd (mset (build_provider_map raw))"
    by (simp add: sortedProviders_def object_values_def mset_js_sort
        mset_own_property_order)
  then have "mset (map (\<lambda>e. length (countries e)) (sortedProviders raw))
      = mset (map (\<lambda>kv. length (countries (snd kv))) (build_provider_map raw))"
    by (simp add: image_mset.compositionality comp_def)
  then show ?thesis
    by (metis sum_mset_sum_list)
qed

text \<open>
  Claim C1. For every input, the sizes of the countries sets of the produced entries add
  up to the number of distinct (country, provider) pairs in the flatrate lists: no pair
  is lost and none is counted twice.
\<close>

theorem aggregate_counts_every_pair_once:
  "(\<Sum>e\<leftarrow>sortedProviders allProviders. length (countries e))
   = card (set (flatrate_pairs allProviders))"
  by (simp add: sum_list_sortedProviders sum_sizes_pairs build_provider_map_ok)

lemma example_scenario_map:
  "build_provider_map example_scenario =
     [(8, \<lparr>name = ''Netflix'', logo = ''/n.jpg'', countries = [''US'', ''GB'']\<rparr>),
      (9, \<lparr>name = ''Disney+'', logo = ''/d.jpg'', countries = [''FR'']\<rparr>)]"
  by (simp add: example_scenario_def build_provider_map_def add_country_def add_offer_def set_add_def)

lemma example_scenario_sorted:
  "sortedProviders example_scenario =
     [\<lparr>name = ''Netflix'', logo = ''/n.jpg'', countries = [''US'', ''GB'']\<rparr>,
      \<lparr>name = ''Disney+'', logo = ''/d.jpg'', countries = [''FR'']\<rparr>]"
  by (simp add: sortedProviders_def example_scenario_map object_values_def
      own_property_order_def is_array_index_def js_sort_def by_country_count_def)

text \<open>An input in which no country has a flatrate list gives the empty sequence.\<close>

lemma no_flatrate_no_provider:
  "\<forall>entry \<in> set allProviders. flatrate (snd entry) = None \<Longrightarrow> sortedProviders allProviders = []"
proof -
  assume none: "\<forall>entry \<in> set allProviders. flatrate (snd entry) = None"
  have "foldl add_country pm allProviders = pm" for pm
    using none by (induction allProviders arbitrary: pm) (auto simp: add_country_def)
  then show ?thesis
    by (simp add: sortedProviders_def build_provider_map_def object_values_def
        own_property_order_def js_sort_def)
qed

text \<open>
  Claim C1 at the scenario of the specification: three pairs, and sets of two countries
  and of one.
\<close>

theorem aggregate_counts_every_pair_once_witness:
  "sortedProviders example_scenario =
     [\<lparr>name = ''Netflix'', logo = ''/n.jpg'', countries = [''US'', ''GB'']\<rparr>,
      \<lparr>name = ''Disney+'', logo = ''/d.jpg'', countries = [''FR'']\<rparr>]
   \<and> set (flatrate_pairs example_scenario) = {(''US'', 8), (''GB'', 8), (''FR'', 9)}
   \<and> card (set (flatrate_pairs example_scenario)) = 3"
proof -
  have pairs: "set (flatrate_pairs example_scenario) = {(''US'', 8), (''GB'', 8), (''FR'', 9)}"
    by (simp add: flatrate_pairs_def example_scenario_def)
  from aggregate_counts_every_pair_once [of example_scenario]
  have "card (set (flatrate_pairs example_scenario)) = 3"
    by (simp add: example_scenario_sorted)
  with pairs example_scenario_sorted show ?thesis by (intro conjI)
qed

lemma sorted_insort_cmp:
  assumes total: "\<And>a b. cmp a b \<le> 0 \<or> cmp b a \<le> 0"
    and trans: "\<And>a b c. cmp a b \<le> 0 \<Longrightarrow> cmp b c \<le> 0 \<Longrightarrow> cmp a c \<le> 0"
  shows "sorted_wrt (\<lambda>a b. cmp a b \<le> 0) ys \<Longrightarrow> sorted_wrt (\<lambda>a b. cmp a b \<le> 0) (insort_cmp cmp x ys)"
proof (induction ys)
  case Nil
  show ?case by simp
next
  case (Cons y ys)
  show ?case
  proof (cases "cmp x y \<le> 0")
    case True
    with Cons.prems trans show ?thesis by auto
  next
    case False
    with total have "cmp y x \<le> 0" by blast
    with False Cons show ?thesis by (auto simp: set_insort_cmp)
  qed
qed

lemma sorted_js_sort:
  assumes "\<And>a b. cmp a b \<le> 0 \<or> cmp b a \<le> 0"
    and "\<And>a b c. cmp a b \<le> 0 \<Longrightarrow> cmp b c \<le> 0 \<Longrightarrow> cmp a c \<le> 0"
  shows "sorted_wrt (\<lambda>a b. cmp a b \<le> 0) (js_sort cmp xs)"
proof (induction xs)
  case Nil
  show ?case by (simp add: js_sort_def)
next
  case (Cons x xs)
  have "js_sort cmp (x # xs) = insort_cmp cmp x (js_sort cmp xs)"
    by (simp add: js_sort_def)
  with Cons sorted_insort_cmp [of cmp, OF assms] show ?case by simp
qed

lemma set_js_sort: "set (js_sort cmp xs) = set xs"
  by (induction xs) (auto simp: js_sort_def set_insort_cmp)

lemma map_insort_cmp:
  "map f (insort_cmp (\<lambda>a b. cmp (f a) (f b)) x ys) = insort_cmp cmp (f x) (map f ys)"
  by (induction ys) auto

lemma map_js_sort: "map f (js_sort (\<lambda>a b. cmp (f a) (f b)) xs) = js_sort cmp (map f xs)"
  by (induction xs) (auto simp: js_sort_def map_insort_cmp)

lemma sortedProviders_keyed_values:
  "map snd (sortedProviders_keyed raw) = sortedProviders raw"
  by (simp add: sortedProviders_keyed_def sortedProviders_def object_values_def map_js_sort)

lemma sortedProviders_nonincreasing:
  "sorted_wrt (\<lambda>a b. length (countries b) \<le> length (countries a)) (sortedProviders raw)"
proof -
  have "sorted_wrt (\<lambda>a b. by_country_count a b \<le> 0) (sortedProviders raw)"
    unfolding sortedProviders_def
    by (rule sorted_js_sort) (auto simp: by_country_count_def)
  then show ?thesis by (simp add: by_country_count_def)
qed

lemma keyed_before_insort:
  "sorted_wrt keyed_before ys \<Longrightarrow> \<forall>y \<in> set ys. fst x < fst y \<Longrightarrow>
   sorted_wrt keyed_before (insort_cmp (\<lambda>a b. by_country_count (snd a) (snd b)) x ys)"
proof (induction ys)
  case Nil
  show ?case by simp
next
  case (Cons y ys)
  show ?case
  proof (cases "by_country_count (snd x) (snd y) \<le> 0")
    case True
    then have xy: "length (countries (snd y)) \<le> length (countries (snd x))"
      by (simp add: by_country_count_def)
    have "keyed_before x z" if "z \<in> set (y # ys)" for z
    proof -
      have "length (countries (snd z)) \<le> length (countries (snd y))"
        using that Cons.prems(1) by (auto simp: keyed_before_def)
      with xy that Cons.prems(2) show ?thesis by (auto simp: keyed_before_def)
    qed
    with True Cons.prems(1) show ?thesis by simp
  next
    case False
    then have "keyed_before y x" by (simp add: by_country_count_def keyed_before_def)
    with False Cons show ?thesis by (auto simp: set_insort_cmp)
  qed
qed

lemma keyed_before_js_sort:
  "sorted_wrt (\<lambda>a b. fst a < fst b) xs \<Longrightarrow>
   sorted_wrt keyed_before (js_sort (\<lambda>a b. by_country_count (snd a) (snd b)) xs)"
proof (induction xs)
  case Nil
  show ?case by (simp add: js_sort_def)
next
  case (Cons x xs)
  have "js_sort (\<lambda>a b. by_country_count (snd a) (snd b)) (x # xs)
      = insort_cmp (\<lambda>a b. by_country_count (snd a) (snd b)) x
          (js_sort (\<lambda>a b. by_country_count (snd a) (snd b)) xs)"
    by (simp add: js_sort_def)
  with Cons keyed_before_insort [of "js_sort (\<lambda>a b. by_country_count (snd a) (snd b)) xs" x]
  show ?case by (simp add: set_js_sort)
qed

lemma own_property_order_indices:
  assumes "distinct (map fst m)" and "\<forall>kv \<in> set m. is_array_index (fst kv)"
  shows "sorted_wrt (\<lambda>a b. fst a < fst b) (own_property_order m)"
proof -
  from assms(2) have "own_property_order m = sort_key fst m"
    by (simp add: own_property_order_def)
  moreover have "mset (map fst (sort_key fst m)) = mset (map fst m)"
    by simp
  then have "distinct (map fst (sort_key fst m))"
    using assms(1) by (metis mset_eq_imp_distinct_iff)
  then have "sorted_wrt (<) (map fst (sort_key fst m))"
    by (simp add: strict_sorted_iff)
  ultimately show ?thesis by (simp add: sorted_wrt_map)
qed


lemma keys_add_offer':
  "fst ` set (add_offer c pm p) = insert (provider_id p) (fst ` set pm)"
  using keys_add_offer [of c pm p] by simp

lemma keys_foldl_add_offer:
  "fst ` set (foldl (add_offer c) pm offers) = fst ` set pm \<union> provider_id ` set offers"
  by (induction offers arbitrary: pm) (auto simp: keys_add_offer')

lemma keys_add_country:
  "fst ` set (add_country pm entry) = fst ` set pm \<union> snd ` set (flatrate_pairs [entry])"
  by (auto simp: add_country_def flatrate_pairs_def keys_foldl_add_offer image_image split: option.splits)

lemma keys_foldl_add_country:
  "fst ` set (foldl add_country pm raw) = fst ` set pm \<union> snd ` set (flatrate_pairs raw)"
proof (induction raw arbitrary: pm)
  case Nil
  show ?case by (simp add: flatrate_pairs_def)
next
  case (Cons entry raw)
  show ?case
    by (simp add: Cons.IH keys_add_country flatrate_pairs_Cons [of entry raw] image_Un Un_assoc)
qed

lemma keys_build_provider_map:
  "fst ` set (build_provider_map raw) = snd ` set (flatrate_pairs raw)"
  using keys_foldl_add_country [of "[]" raw] by (simp add: build_provider_map_def)

lemma example_tie_map:
  "build_provider_map example_tie =
     [(9, \<lparr>name = ''Disney+'', logo = ''/d.jpg'', countries = [''US'']\<rparr>),
      (8, \<lparr>name = ''Netflix'', logo = ''/n.jpg'', countries = [''US'']\<rparr>)]"
  by (simp add: example_tie_def build_provider_map_def add_country_def add_offer_def set_add_def)

lemma example_tie_keyed:
  "sortedProviders_keyed example_tie =
     [(8, \<lparr>name = ''Netflix'', logo = ''/n.jpg'', countries = [''US'']\<rparr>),
      (9, \<lparr>name = ''Disney+'', logo = ''/d.jpg'', countries = [''US'']\<rparr>)]"
  by (simp add: sortedProviders_keyed_def example_tie_map
      own_property_order_def is_array_index_def js_sort_def by_country_count_def)

lemma example_tie_encounter: "encounter_order example_tie = [9, 8]"
  by (simp add: example_tie_def encounter_order_def flatrate_pairs_def)

text \<open>
  Claim C2 as stated fails: Disney+ (id 9) is met before Netflix (id 8), both have one
  country, and Netflix is listed first.
\<close>

theorem ties_follow_ids_not_encounter_order:
  "sortedProviders example_tie =
     [\<lparr>name = ''Netflix'', logo = ''/n.jpg'', countries = [''US'']\<rparr>,
      \<lparr>name = ''Disney+'', logo = ''/d.jpg'', countries = [''US'']\<rparr>]
   \<and> encounter_order example_tie = [9, 8]
   \<and> \<not> ties_in_encounter_order example_tie"
  by (simp add: ties_in_encounter_order_def example_tie_keyed example_tie_encounter
      first_seen_before_def flip: sortedProviders_keyed_values)

lemma filter_insort_cmp:
  assumes "\<And>a b. cmp a b \<le> 0 \<longleftrightarrow> f b \<le> (f a :: nat)"
  shows "filter (\<lambda>y. f y = k) (insort_cmp cmp x ys)
         = (if f x = k then x # filter (\<lambda>y. f y = k) ys else filter (\<lambda>y. f y = k) ys)"
  using assms by (induction ys) auto

lemma filter_js_sort:
  assumes "\<And>a b. cmp a b \<le> 0 \<longleftrightarrow> f b \<le> (f a :: nat)"
  shows "filter (\<lambda>y. f y = k) (js_sort cmp xs) = filter (\<lambda>y. f y = k) xs"
proof (induction xs)
  case Nil
  show ?case by (simp add: js_sort_def)
next
  case (Cons x xs)
  have "js_sort cmp (x # xs) = insort_cmp cmp x (js_sort cmp xs)"
    by (simp add: js_sort_def)
  with Cons filter_insort_cmp [of cmp f k x "js_sort cmp xs", OF assms] show ?case by simp
qed

lemma sortedProviders_keyed_stable:
  "filter (\<lambda>e. length (countries (snd e)) = n) (sortedProviders_keyed allProviders)
   = filter (\<lambda>e. length (countries (snd e)) = n) (own_property_order (build_provider_map allProviders))"
  unfolding sortedProviders_keyed_def
  by (rule filter_js_sort) (simp add: by_country_count_def)

text \<open>
  Claim C2, amended. The output is sorted non-increasing by the size of the countries
  sets. Entries of equal size keep the order of \<^verbatim>\<open>Object.values(providerMap)\<close> (the sort
  is stable), which is by ascending provider id for ids that are array indices (below
  \<open>2^32 - 1\<close>).
\<close>

theorem sortedProviders_order:
  "sorted_wrt (\<lambda>a b. length (countries b) \<le> length (countries a)) (sortedProviders allProviders)
   \<and> map snd (sortedProviders_keyed allProviders) = sortedProviders allProviders
   \<and> filter (\<lambda>e. length (countries (snd e)) = n) (sortedProviders_keyed allProviders)
       = filter (\<lambda>e. length (countries (snd e)) = n)
           (own_property_order (build_provider_map allProviders))
   \<and> ((\<forall>k \<in> snd ` set (flatrate_pairs allProviders). is_array_index k) \<longrightarrow>
        sorted_wrt (\<lambda>a b. length (countries (snd a)) = length (countries (snd b)) \<longrightarrow> fst a < fst b)
          (sortedProviders_keyed allProviders))"
proof (intro conjI impI)
  show "sorted_wrt (\<lambda>a b. length (countries b) \<le> length (countries a)) (sortedProviders allProviders)"
    by (rule sortedProviders_nonincreasing)
  show "map snd (sortedProviders_keyed allProviders) = sortedProviders allProviders"
    by (rule sortedProviders_keyed_values)
  show "filter (\<lambda>e. length (countries (snd e)) = n) (sortedProviders_keyed allProviders)
       = filter (\<lambda>e. length (countries (snd e)) = n)
           (own_property_order (build_provider_map allProviders))"
    by (rule sortedProviders_keyed_stable)
  assume ids: "\<forall>k \<in> snd ` set (flatrate_pairs allProviders). is_array_index k"
  let ?m = "build_provider_map allProviders"
  have "distinct (map fst ?m)"
    using build_provider_map_ok(1) [of allProviders] by (simp add: entries_ok_def)
  moreover have "\<forall>kv \<in> set ?m. is_array_index (fst kv)"
  proof
    fix kv assume "kv \<in> set ?m"
    then have "fst kv \<in> snd ` set (flatrate_pairs allProviders)"
      using keys_build_provider_map [of allProviders] by (metis imageI)
    with ids show "is_array_index (fst kv)" by blast
  qed
  ultimately have "sorted_wrt (\<lambda>a b. fst a < fst b) (own_property_order ?m)"
    by (rule own_property_order_indices)
  then have "sorted_wrt keyed_before (sortedProviders_keyed allProviders)"
    unfolding sortedProviders_keyed_def by (rule keyed_before_js_sort)
  then show "sorted_wrt (\<lambda>a b. length (countries (snd a)) = length (countries (snd b)) \<longrightarrow> fst a < fst b)
          (sortedProviders_keyed allProviders)"
    by (rule sorted_wrt_mono_rel [rotated]) (auto simp: keyed_before_def)
qed

text \<open>
  Claim C2, amended, at that input: both ids are array indices, and the two entries of
  size one stand in the order of their ids.
\<close>

theorem sortedProviders_order_witness:
  "sorted_wrt (\<lambda>a b. length (countries b) \<le> length (countries a)) (sortedProviders example_tie)
   \<and> is_array_index 9 \<and> is_array_index 8
   \<and> sorted_wrt (\<lambda>a b. length (countries (snd a)) = length (countries (snd b)) \<and> fst a < fst b)
          (sortedProviders_keyed example_tie)"
  using sortedProviders_order [of example_tie]
  by (simp add: example_tie_keyed is_array_index_def)

section \<open>Properties of the country sort\<close>







section \<open>Properties of the relay function\<close>

lemma encode_example:
  "encodeURIComponent example_url = ''https%3A%2F%2Fwww.themoviedb.org%2Fmovie%2F603%2Fwatch%3Flocale%3DUS''"
  by (simp add: example_url_def encodeURIComponent_def is_alnum_def ascii_lower_def ascii_upper_def
      percent_byte_def hex_digit_def)


lemma scrape_catch_Inl: "scrape_catch (Inl e) = Inr empty_result"
  by (simp add: scrape_catch_def)

text \<open>
  Claim C4, amended. Each variant of the scraper issues exactly one GET: the direct
  variant to the URL itself, the proxied variant to the proxy with the percent-encoded
  URL as its query. When that GET is rejected or answered with a non-success status, the
  variant returns the empty result; neither variant tries the other path.
\<close>

theorem scrape_issues_a_single_get:
  "snd (scrapeTmdbWatchPage_direct net jsdom url) = [get url]
   \<and> snd (scrapeTmdbWatchPage_proxied net jsdom url)
       = [get (''https://corsproxy.io/?'' @ encodeURIComponent url)]
   \<and> ((\<exists>msg. net (get url) = Rejected msg)
        \<or> (\<exists>st html. net (get url) = Response st html \<and> \<not> response_ok st)
       \<longrightarrow> fst (scrapeTmdbWatchPage_direct net jsdom url) = Inr empty_result)
   \<and> ((\<exists>msg. net (get (''https://corsproxy.io/?'' @ encodeURIComponent url)) = Rejected msg)
        \<or> (\<exists>st html. net (get (''https://corsproxy.io/?'' @ encodeURIComponent url)) = Response st html
                       \<and> \<not> response_ok st)
       \<longrightarrow> fst (scrapeTmdbWatchPage_proxied net jsdom url) = Inr empty_result)"
  by (auto simp: scrapeTmdbWatchPage_direct_def scrapeTmdbWatchPage_proxied_def Let_def
      scrape_try_def scrape_catch_Inl)

text \<open>
  Claim C4 as stated fails: the direct GET of the example URL is answered with 403, and
  the direct variant reports the empty result after that one request, with no request to
  the proxy.
\<close>

theorem no_fallback_after_blocked_direct_get:
  "blocked (get example_url) = Response 403 ''Forbidden''
   \<and> \<not> response_ok 403
   \<and> scrapeTmdbWatchPage_direct blocked no_jsdom example_url = (Inr empty_result, [get example_url])
   \<and> get (''https://corsproxy.io/?'' @ encodeURIComponent example_url)
       \<notin> set (snd (scrapeTmdbWatchPage_direct blocked no_jsdom example_url))"
  by (simp add: scrapeTmdbWatchPage_direct_def scrape_try_def scrape_catch_Inl blocked_def
      response_ok_def get_def example_url_def)

text \<open>
  Claim C4, amended, at the blocked origin: one request per variant, and the empty result.
\<close>

theorem scrape_issues_a_single_get_witness:
  "blocked (get example_url) = Response 403 ''Forbidden''
   \<and> \<not> response_ok 403
   \<and> scrapeTmdbWatchPage_direct blocked no_jsdom example_url = (Inr empty_result, [get example_url])
   \<and> scrapeTmdbWatchPage_proxied blocked no_jsdom example_url
       = (Inr empty_result,
          [get ''https://corsproxy.io/?https%3A%2F%2Fwww.themoviedb.org%2Fmovie%2F603%2Fwatch%3Flocale%3DUS''])"
proof -
  have b: "blocked r = Response 403 ''Forbidden''" for r by (simp add: blocked_def)
  have n: "\<not> response_ok 403" by (simp add: response_ok_def)
  from scrape_issues_a_single_get [of blocked no_jsdom example_url] b n
  show ?thesis
    by (auto simp: prod_eq_iff encode_example)
qed

text \<open>
  Claim C10. With \<^verbatim>\<open>TMDB_API_KEY\<close> unset, every request gets status 500 and no
  request is issued, whatever the query holds and whatever the scraper would do.
\<close>

theorem relay_without_key_is_500:
  "relay net json scrape None query =
     (\<lparr>status = 500, content_type = None,
       body = Text ''Server configuration error: TMDB_API_KEY is not set.''\<rparr>, [])"
  by (simp add: relay_def truthy_def)

text \<open>
  Claim C10 at a pure scrape request (only \<^verbatim>\<open>url\<close> given).
\<close>

theorem relay_without_key_is_500_witness:
  "status (fst (relay blocked no_json example_scraper None [(''url'', example_url)])) = 500
   \<and> snd (relay blocked no_json example_scraper None [(''url'', example_url)]) = []"
  using relay_without_key_is_500 [of blocked no_json example_scraper "[(''url'', example_url)]"]
  by simp

text \<open>
  Claim C9, amended. With \<^verbatim>\<open>TMDB_API_KEY\<close> set: a request with a non-empty
  \<^verbatim>\<open>endpoint\<close> runs the forwarding branch only, whether or not it has a \<^verbatim>\<open>url\<close>
  (the outcome does not depend on the scraper, and the one request goes to the metadata
  API); a request in which \<^verbatim>\<open>endpoint\<close> and \<^verbatim>\<open>url\<close> are both absent or empty
  gets status 400 and issues no request.
\<close>

theorem relay_branches:
  "truthy env_key \<longrightarrow>
     (truthy (map_of query ''endpoint'') \<longrightarrow>
        relay net json scrape env_key query = relay net json scrape' env_key query
        \<and> relay net json scrape env_key query
            = forward_api net json (the env_key) (the (map_of query ''endpoint'')) query
        \<and> map req_url (snd (relay net json scrape env_key query))
            = [''https://api.themoviedb.org/3/'' @ the (map_of query ''endpoint'') @ ''?''
               @ remove_first (''endpoint='' @ the (map_of query ''endpoint'') @ ''&'')
                   (URLSearchParams_toString query)])
     \<and> (\<not> truthy (map_of query ''endpoint'') \<and> \<not> truthy (map_of query ''url'') \<longrightarrow>
          status (fst (relay net json scrape env_key query)) = 400
          \<and> snd (relay net json scrape env_key query) = [])"
  by (auto simp: relay_def forward_api_def Let_def)

text \<open>
  Claim C9 as stated fails twice: without the key a request with neither parameter gets
  500, not 400; and with the key, a request that supplies an empty \<^verbatim>\<open>endpoint\<close>
  beside a \<^verbatim>\<open>url\<close> is scraped.
\<close>

theorem relay_status_depends_on_key_and_empty_endpoint:
  "status (fst (relay blocked no_json example_scraper None [])) = 500
   \<and> map_of [(''endpoint'', []), (''url'', example_url)] ''endpoint'' = Some []
   \<and> relay blocked no_json example_scraper (Some ''k'') [(''endpoint'', []), (''url'', example_url)]
       = (\<lparr>status = 200, content_type = Some ''application/json'', body = Scraped empty_result\<rparr>,
          [get example_url])"
  by (simp add: relay_def truthy_def example_scraper_def scrapeTmdbWatchPage_direct_def
      scrape_try_def scrape_catch_Inl blocked_def response_ok_def example_url_def)

lemma example_query_string:
  "URLSearchParams_toString [(''endpoint'', ''search/multi''), (''query'', ''blade runner''), (''url'', ''x'')]
   = ''endpoint=search%2Fmulti&query=blade+runner&url=x''"
  by (simp add: URLSearchParams_toString_def form_urlencode_def is_alnum_def ascii_lower_def
      ascii_upper_def percent_byte_def hex_digit_def)

text \<open>
  Claim C9, amended, at a request with both parameters and at a request with none.
\<close>

theorem relay_branches_witness:
  "truthy (Some ''k'')
   \<and> truthy (map_of [(''endpoint'', ''search/multi''), (''query'', ''blade runner''), (''url'', ''x'')] ''endpoint'')
   \<and> map req_url (snd (relay blocked no_json example_scraper (Some ''k'')
         [(''endpoint'', ''search/multi''), (''query'', ''blade runner''), (''url'', ''x'')]))
       = [''https://api.themoviedb.org/3/search/multi?endpoint=search%2Fmulti&query=blade+runner&url=x'']
   \<and> status (fst (relay blocked no_json example_scraper (Some ''k'') [])) = 400
   \<and> snd (relay blocked no_json example_scraper (Some ''k'') []) = []"
  using relay_branches [of "Some ''k''" "[(''endpoint'', ''search/multi''), (''query'', ''blade runner''), (''url'', ''x'')]"
      blocked no_json example_scraper example_scraper]
    relay_branches [of "Some ''k''" "[]" blocked no_json example_scraper example_scraper]
  by (simp (no_asm_use) add: truthy_def example_query_string) (elim conjE, simp)

section \<open>Properties of the extraction\<close>

lemma distinct_foldl_set_add: "distinct s \<Longrightarrow> distinct (foldl set_add s xs)"
  by (induction xs arbitrary: s) (auto simp: set_add_def)

lemma keys_put: "map fst (put p marks info) = map fst info"
  by (induction info) (auto simp: put_def)

lemma map_of_put:
  "map_of (put p marks info) q =
     (if q = p then map_option (\<lambda>stream. foldl set_add stream marks) (map_of info q)
      else map_of info q)"
  by (induction info) (auto simp: put_def)

lemma info_ok_put: "info_ok info \<Longrightarrow> info_ok (put p marks info)"
  by (auto simp: info_ok_def keys_put) (auto simp: put_def distinct_foldl_set_add split: if_splits)

lemma add_quality_cases:
  "add_quality info li =
     (case provider_of li of
        None \<Rightarrow> Inr info
      | Some p \<Rightarrow>
          if p \<in> fst ` set info then Inr (put p (quality_marks (classList li)) info)
          else if p \<in> set object_prototype_keys
          then (if quality_marks (classList li) = [] then Inr info
                else Inl (TypeError (''Cannot read properties of undefined (reading '' @ quoted ''add'' @ '')'')))
          else Inr (put p (quality_marks (classList li)) (info @ [(p, [])])))"
  by (auto simp: add_quality_def put_def Let_def split: option.splits)

lemma map_of_Some_key: "map_of info q = Some x \<Longrightarrow> q \<in> fst ` set info"
  by (metis map_of_eq_None_iff option.distinct(1))

lemma tiers_of_put:
  "tiers_of (put p marks info) q =
     (if q = p \<and> p \<in> fst ` set info then foldl set_add (tiers_of info q) marks
      else tiers_of info q)"
proof (cases "map_of info q")
  case None
  then have "q \<notin> fst ` set info" by (simp add: map_of_eq_None_iff)
  with None show ?thesis by (auto simp: tiers_of_def map_of_put)
next
  case (Some stream)
  then have "q \<in> fst ` set info" by (metis map_of_eq_None_iff option.distinct(1))
  with Some show ?thesis by (auto simp: tiers_of_def map_of_put)
qed

lemma tiers_of_new: "p \<notin> fst ` set info \<Longrightarrow> tiers_of (info @ [(p, [])]) q = tiers_of info q"
  by (auto simp: tiers_of_def map_add_def split: option.splits dest: map_of_Some_key)

lemma info_ok_new: "info_ok info \<Longrightarrow> p \<notin> fst ` set info \<Longrightarrow> info_ok (info @ [(p, [])])"
  by (auto simp: info_ok_def)

lemma marks_for_single:
  "marks_for q [li] = (if provider_of li = Some q then quality_marks (classList li) else [])"
  by (simp add: marks_for_def)

lemma add_quality_ok:
  assumes "add_quality info li = Inr info'" and "info_ok info"
  shows "info_ok info' \<and> tiers_of info' q = foldl set_add (tiers_of info q) (marks_for q [li])"
proof (cases "provider_of li")
  case None
  with assms show ?thesis by (simp add: add_quality_cases marks_for_single)
next
  case (Some p)
  show ?thesis
  proof (cases "p \<in> fst ` set info")
    case True
    with Some assms(1) have "info' = put p (quality_marks (classList li)) info"
      by (simp add: add_quality_cases)
    with True Some assms(2) show ?thesis
      by (auto simp: info_ok_put tiers_of_put marks_for_single)
  next
    case False
    show ?thesis
    proof (cases "p \<in> set object_prototype_keys")
      case True
      with False Some assms(1) have "info' = info" and "quality_marks (classList li) = []"
        by (auto simp: add_quality_cases split: if_splits)
      with assms(2) show ?thesis by (simp add: marks_for_single)
    next
      case notproto: False
      with False Some assms(1)
      have "info' = put p (quality_marks (classList li)) (info @ [(p, [])])"
        by (simp add: add_quality_cases)
      with False Some assms(2) show ?thesis
        by (auto simp: info_ok_put info_ok_new tiers_of_put tiers_of_new marks_for_single)
    qed
  qed
qed

lemma marks_for_append: "marks_for q (xs @ ys) = marks_for q xs @ marks_for q ys"
  by (simp add: marks_for_def)

lemma forEach_add_quality_ok:
  "forEach add_quality info entries = Inr info' \<Longrightarrow> info_ok info \<Longrightarrow>
   info_ok info' \<and> tiers_of info' q = foldl set_add (tiers_of info q) (marks_for q entries)"
proof (induction entries arbitrary: info)
  case Nil
  then show ?case by (simp add: marks_for_def)
next
  case (Cons li entries)
  from Cons.prems(1) obtain mid where mid: "add_quality info li = Inr mid"
    and rest: "forEach add_quality mid entries = Inr info'"
    by (auto split: sum.splits)
  from add_quality_ok [OF mid Cons.prems(2), of q]
  have ok: "info_ok mid"
    and t: "tiers_of mid q = foldl set_add (tiers_of info q) (marks_for q [li])"
    by simp_all
  from Cons.IH [OF rest ok] t show ?case
    using marks_for_append [of q "[li]" entries] by simp
qed

lemma add_section_ok:
  assumes "add_section info section = Inr info'" and "info_ok info"
  shows "info_ok info' \<and>
         tiers_of info' q
         = foldl set_add (tiers_of info q) (marks_for q (if is_stream section then offer_items section else []))"
proof (cases "is_stream section")
  case True
  with assms(1) have "forEach add_quality info (offer_items section) = Inr info'"
    by (auto simp: add_section_def is_stream_def split: option.splits if_splits)
  from forEach_add_quality_ok [OF this assms(2), of q] True show ?thesis by simp
next
  case False
  with assms(1) have "info' = info"
    by (auto simp: add_section_def is_stream_def split: option.splits if_splits)
  with False assms(2) show ?thesis by (simp add: marks_for_def)
qed

lemma forEach_add_section_ok:
  "forEach add_section info sections = Inr info' \<Longrightarrow> info_ok info \<Longrightarrow>
   info_ok info' \<and>
   tiers_of info' q
   = foldl set_add (tiers_of info q)
       (marks_for q (concat (map offer_items (filter is_stream sections))))"
proof (induction sections arbitrary: info)
  case Nil
  then show ?case by (simp add: marks_for_def)
next
  case (Cons sec sections)
  from Cons.prems(1) obtain mid where mid: "add_section info sec = Inr mid"
    and rest: "forEach add_section mid sections = Inr info'"
    by (auto split: sum.splits)
  from add_section_ok [OF mid Cons.prems(2), of q]
  have ok: "info_ok mid"
    and t: "tiers_of mid q
            = foldl set_add (tiers_of info q)
                (marks_for q (if is_stream sec then offer_items sec else []))"
    by simp_all
  from Cons.IH [OF rest ok] t show ?case
    by (simp add: marks_for_append) (simp add: marks_for_def)
qed

lemma extract_page_ok:
  assumes "extract_page doc = Inr r"
  shows "info_ok (providersInfo r)"
    and "tiers_of (providersInfo r) q = foldl set_add [] (marks_for q (stream_entries doc))"
    and "justWatchUrl r = justwatch_href doc"
proof -
  from assms obtain info where info: "forEach add_section [] (ott_providers doc) = Inr info"
    and r: "r = \<lparr>justWatchUrl = justwatch_href doc, providersInfo = info\<rparr>"
    by (auto simp: extract_page_def split: sum.splits)
  have "info_ok []" by (simp add: info_ok_def)
  from forEach_add_section_ok [OF info this, of q] r
  show "info_ok (providersInfo r)"
    and "tiers_of (providersInfo r) q = foldl set_add [] (marks_for q (stream_entries doc))"
    by (simp_all add: stream_entries_def tiers_of_def)
  from r show "justWatchUrl r = justwatch_href doc" by simp
qed




lemma keys_put_set: "fst ` set (put p marks info) = fst ` set info"
  using keys_put [of p marks info] by (metis set_map)










lemma add_quality_throws:
  "no_own_prototype_key info \<Longrightarrow> throws li \<Longrightarrow> \<exists>e. add_quality info li = Inl e"
  by (auto simp: add_quality_cases throws_def no_own_prototype_key_def split: option.splits)

lemma add_quality_returns:
  assumes "no_own_prototype_key info" and "\<not> throws li"
  shows "\<exists>info'. add_quality info li = Inr info' \<and> no_own_prototype_key info'
           \<and> fst ` set info' = fst ` set info \<union> provider_names [li]"
proof (cases "provider_of li")
  case None
  with assms show ?thesis by (simp add: add_quality_cases provider_names_def)
next
  case (Some p)
  with assms show ?thesis
    by (auto simp: add_quality_cases throws_def no_own_prototype_key_def provider_names_def keys_put_set)
qed

lemma provider_names_Cons: "provider_names (li # entries) = provider_names [li] \<union> provider_names entries"
  by (auto simp: provider_names_def)

lemma provider_names_append: "provider_names (xs @ ys) = provider_names xs \<union> provider_names ys"
  by (auto simp: provider_names_def)

lemma forEach_add_quality_throws:
  "no_own_prototype_key info \<Longrightarrow> \<exists>li \<in> set entries. throws li \<Longrightarrow>
   \<exists>e. forEach add_quality info entries = Inl e"
proof (induction entries arbitrary: info)
  case Nil
  then show ?case by simp
next
  case (Cons li entries)
  show ?case
  proof (cases "throws li")
    case True
    from add_quality_throws [OF Cons.prems(1) True] show ?thesis by auto
  next
    case False
    from add_quality_returns [OF Cons.prems(1) False] obtain mid
      where mid: "add_quality info li = Inr mid" and ok: "no_own_prototype_key mid" by blast
    from False Cons.prems(2) have "\<exists>li \<in> set entries. throws li" by simp
    from Cons.IH [OF ok this] mid show ?thesis by simp
  qed
qed

lemma forEach_add_quality_returns:
  "no_own_prototype_key info \<Longrightarrow> \<forall>li \<in> set entries. \<not> throws li \<Longrightarrow>
   \<exists>info'. forEach add_quality info entries = Inr info' \<and> no_own_prototype_key info'
      \<and> fst ` set info' = fst ` set info \<union> provider_names entries"
proof (induction entries arbitrary: info)
  case Nil
  then show ?case by (simp add: provider_names_def)
next
  case (Cons li entries)
  from Cons.prems(2) have here: "\<not> throws li" and rest: "\<forall>li \<in> set entries. \<not> throws li"
    by simp_all
  from add_quality_returns [OF Cons.prems(1) here] obtain mid
    where mid: "add_quality info li = Inr mid" and ok: "no_own_prototype_key mid"
      and keys: "fst ` set mid = fst ` set info \<union> provider_names [li]" by blast
  from Cons.IH [OF ok rest] obtain info' where
    "forEach add_quality mid entries = Inr info'" "no_own_prototype_key info'"
    "fst ` set info' = fst ` set mid \<union> provider_names entries" by blast
  with mid keys show ?case
    using provider_names_Cons [of li entries] by auto
qed

lemma add_section_cases:
  "add_section info sec = (if is_stream sec then forEach add_quality info (offer_items sec) else Inr info)"
  by (auto simp: add_section_def is_stream_def split: option.splits)

lemma forEach_add_section_throws:
  "no_own_prototype_key info \<Longrightarrow>
   \<exists>li \<in> set (concat (map offer_items (filter is_stream sections))). throws li \<Longrightarrow>
   \<exists>e. forEach add_section info sections = Inl e"
proof (induction sections arbitrary: info)
  case Nil
  then show ?case by simp
next
  case (Cons sec sections)
  show ?case
  proof (cases "is_stream sec")
    case False
    then have "add_section info sec = Inr info" by (simp add: add_section_cases)
    moreover from False Cons.prems(2)
    have "\<exists>li \<in> set (concat (map offer_items (filter is_stream sections))). throws li" by simp
    ultimately show ?thesis using Cons.IH [OF Cons.prems(1)] by simp
  next
    case True
    then have sec: "add_section info sec = forEach add_quality info (offer_items sec)"
      by (simp add: add_section_cases)
    show ?thesis
    proof (cases "\<exists>li \<in> set (offer_items sec). throws li")
      case here: True
      from forEach_add_quality_throws [OF Cons.prems(1) here] sec show ?thesis by auto
    next
      case nothere: False
      then have "\<forall>li \<in> set (offer_items sec). \<not> throws li" by simp
      from forEach_add_quality_returns [OF Cons.prems(1) this] obtain mid
        where mid: "forEach add_quality info (offer_items sec) = Inr mid"
          and ok: "no_own_prototype_key mid" by blast
      from nothere True Cons.prems(2)
      have "\<exists>li \<in> set (concat (map offer_items (filter is_stream sections))). throws li" by auto
      from Cons.IH [OF ok this] mid sec show ?thesis by simp
    qed
  qed
qed

lemma forEach_add_section_returns:
  "no_own_prototype_key info \<Longrightarrow>
   \<forall>li \<in> set (concat (map offer_items (filter is_stream sections))). \<not> throws li \<Longrightarrow>
   \<exists>info'. forEach add_section info sections = Inr info' \<and> no_own_prototype_key info'
      \<and> fst ` set info'
          = fst ` set info \<union> provider_names (concat (map offer_items (filter is_stream sections)))"
proof (induction sections arbitrary: info)
  case Nil
  then show ?case by (simp add: provider_names_def)
next
  case (Cons sec sections)
  show ?case
  proof (cases "is_stream sec")
    case False
    then have "add_section info sec = Inr info" by (simp add: add_section_cases)
    moreover from False Cons.prems(2)
    have "\<forall>li \<in> set (concat (map offer_items (filter is_stream sections))). \<not> throws li" by simp
    ultimately show ?thesis using Cons.IH [OF Cons.prems(1)] False by simp
  next
    case True
    then have sec: "add_section info sec = forEach add_quality info (offer_items sec)"
      by (simp add: add_section_cases)
    from True Cons.prems(2) have here: "\<forall>li \<in> set (offer_items sec). \<not> throws li"
      and rest: "\<forall>li \<in> set (concat (map offer_items (filter is_stream sections))). \<not> throws li"
      by simp_all
    from forEach_add_quality_returns [OF Cons.prems(1) here] obtain mid
      where mid: "forEach add_quality info (offer_items sec) = Inr mid"
        and ok: "no_own_prototype_key mid"
        and keys: "fst ` set mid = fst ` set info \<union> provider_names (offer_items sec)" by blast
    from Cons.IH [OF ok rest] obtain info' where
      "forEach add_section mid sections = Inr info'" "no_own_prototype_key info'"
      "fst ` set info'
         = fst ` set mid \<union> provider_names (concat (map offer_items (filter is_stream sections)))"
      by blast
    with mid keys sec True show ?thesis
      by (auto simp: provider_names_append)
  qed
qed

lemma extract_page_throws:
  "\<exists>li \<in> set (stream_entries doc). throws li \<Longrightarrow> \<exists>e. extract_page doc = Inl e"
  using forEach_add_section_throws [of "[]" "ott_providers doc"]
  by (auto simp: extract_page_def stream_entries_def no_own_prototype_key_def)

lemma extract_page_returns:
  assumes "\<forall>li \<in> set (stream_entries doc). \<not> throws li"
  shows "\<exists>r. extract_page doc = Inr r
           \<and> fst ` set (providersInfo r) = provider_names (stream_entries doc)"
proof -
  have "no_own_prototype_key []" by (simp add: no_own_prototype_key_def)
  from forEach_add_section_returns [OF this, of "ott_providers doc"] assms
  obtain info where "forEach add_section [] (ott_providers doc) = Inr info"
    "fst ` set info = provider_names (stream_entries doc)"
    by (auto simp: stream_entries_def)
  then show ?thesis by (simp add: extract_page_def)
qed

lemma extract_page_keys:
  assumes "extract_page doc = Inr r"
  shows "fst ` set (providersInfo r) = provider_names (stream_entries doc)"
proof (cases "\<exists>li \<in> set (stream_entries doc). throws li")
  case True
  from extract_page_throws [OF True] assms show ?thesis by auto
next
  case False
  then have "\<forall>li \<in> set (stream_entries doc). \<not> throws li" by simp
  from extract_page_returns [OF this] assms show ?thesis by auto
qed

lemma quality_marks_descending:
  "sorted_wrt (\<lambda>a b. tier_rank b < tier_rank a) (quality_marks classes)"
  by (simp add: quality_marks_def)

lemma quality_items_member:
  assumes "info_ok info" and "(p, ts) \<in> set info" and "ts \<noteq> []"
  shows "(p, map tier_name ts) \<in> set (quality_items info)"
proof -
  from assms(1,2) have "map_of info p = Some ts" by (simp add: info_ok_def)
  moreover from assms(2) have "p \<in> set (sort (map fst info))" by force
  ultimately show ?thesis using assms(3) by (force simp: quality_items_def)
qed

lemma quality_marks_members:
  "Q4K \<in> set (quality_marks classes) \<longleftrightarrow> ''ott_filter_4k'' \<in> set classes"
  "HD \<in> set (quality_marks classes) \<longleftrightarrow> ''ott_filter_hd'' \<in> set classes"
  "SD \<in> set (quality_marks classes) \<longleftrightarrow> ''ott_filter_sd'' \<in> set classes"
  by (simp_all add: quality_marks_def)

text \<open>
  Claim C5, amended. The providers of an extraction result are those that the entries of
  the stream sections name (names of \<^verbatim>\<open>Object.prototype\<close> apart). For every one of them
  the tiers are free of duplicates and stand in the order in which they were first added:
  the entries of the provider in page order, each adding the markers it carries in the
  order 4K, HD, SD (whatever the order of the class attribute). The dropdown shows them
  in that same order.
\<close>

theorem tiers_in_insertion_order:
  "(extract_page doc = Inr r \<longrightarrow>
      fst ` set (providersInfo r) = provider_names (stream_entries doc)
      \<and> ((p, ts) \<in> set (providersInfo r) \<longrightarrow>
           distinct ts
           \<and> ts = foldl set_add [] (marks_for p (stream_entries doc))
           \<and> (ts \<noteq> [] \<longrightarrow> (p, map tier_name ts) \<in> set (quality_items (providersInfo r)))))
   \<and> sorted_wrt (\<lambda>a b. tier_rank b < tier_rank a) (quality_marks classes)
   \<and> (Q4K \<in> set (quality_marks classes) \<longleftrightarrow> ''ott_filter_4k'' \<in> set classes)
   \<and> (HD \<in> set (quality_marks classes) \<longleftrightarrow> ''ott_filter_hd'' \<in> set classes)
   \<and> (SD \<in> set (quality_marks classes) \<longleftrightarrow> ''ott_filter_sd'' \<in> set classes)"
proof (intro impI conjI)
  show "sorted_wrt (\<lambda>a b. tier_rank b < tier_rank a) (quality_marks classes)"
    by (rule quality_marks_descending)
  show "Q4K \<in> set (quality_marks classes) \<longleftrightarrow> ''ott_filter_4k'' \<in> set classes"
    and "HD \<in> set (quality_marks classes) \<longleftrightarrow> ''ott_filter_hd'' \<in> set classes"
    and "SD \<in> set (quality_marks classes) \<longleftrightarrow> ''ott_filter_sd'' \<in> set classes"
    by (rule quality_marks_members)+
next
  assume r: "extract_page doc = Inr r"
  then show "fst ` set (providersInfo r) = provider_names (stream_entries doc)"
    by (rule extract_page_keys)
  assume mem: "(p, ts) \<in> set (providersInfo r)"
  from extract_page_ok(1) [OF r] extract_page_ok(2) [OF r, of p]
  have ok: "info_ok (providersInfo r)"
    and t: "tiers_of (providersInfo r) p = foldl set_add [] (marks_for p (stream_entries doc))"
    by simp_all
  from ok mem have "map_of (providersInfo r) p = Some ts" by (simp add: info_ok_def)
  then have "tiers_of (providersInfo r) p = ts" by (simp add: tiers_of_def)
  with t show "ts = foldl set_add [] (marks_for p (stream_entries doc))" by simp
  from ok mem show "distinct ts" by (auto simp: info_ok_def)
  assume "ts \<noteq> []"
  with ok mem show "(p, map tier_name ts) \<in> set (quality_items (providersInfo r))"
    by (rule quality_items_member)
qed

lemma stream_heading: "toLowerCase (trim ''Stream'') = ''stream''"
  by (simp add: toLowerCase_def trim_def trimStart_def trimEnd_def white_space_def
      ascii_lower_def ascii_upper_def)

lemma rent_heading: "toLowerCase (trim ''Rent'') = ''rent''"
  by (simp add: toLowerCase_def trim_def trimStart_def trimEnd_def white_space_def
      ascii_lower_def ascii_upper_def)

text \<open>
  A heading between a line feed with spaces and a no-break space (U+00A0) is a stream
  heading as well.
\<close>

lemma padded_heading:
  "toLowerCase (trim ([CHR 0x0A] @ ''  STREAM'' @ [CHR 0xC2, CHR 0xA0])) = ''stream''"
  by (simp add: toLowerCase_def trim_def trimStart_def trimEnd_def white_space_def
      ascii_lower_def ascii_upper_def)

lemma hulu_title: "match_on ''Watch Foo on Hulu'' = Some ''Hulu''"
  by simp

lemma stream_heading_nbsp: "toLowerCase (trim nbsp_heading) = ''stream''"
  by (simp add: nbsp_heading_def toLowerCase_def trim_def trimStart_def trimEnd_def white_space_def
      ascii_lower_def ascii_upper_def)

text \<open>The section under a heading that ends in a no-break space is processed.\<close>

lemma extract_nbsp_page:
  "extract_page nbsp_page = Inr \<lparr>justWatchUrl = None, providersInfo = [(''Hulu'', [HD])]\<rparr>"
  by (simp add: extract_page_def nbsp_page_def add_section_def stream_heading_nbsp
      add_quality_def provider_of_def hulu_title quality_marks_def set_add_def
      object_prototype_keys_def)

lemma extract_hulu_page:
  "extract_page hulu_page =
     Inr \<lparr>justWatchUrl = Some ''https://www.justwatch.com/us/movie/foo'',
          providersInfo = [(''Hulu'', [Q4K, HD])]\<rparr>"
  by (simp add: extract_page_def hulu_page_def add_section_def stream_heading rent_heading
      add_quality_def provider_of_def hulu_title quality_marks_def set_add_def
      object_prototype_keys_def)

lemma hulu_items: "quality_items [(''Hulu'', [Q4K, HD])] = [(''Hulu'', [''4K'', ''HD''])]"
  by (simp add: quality_items_def)

text \<open>
  Claim C5 as stated fails: an entry marked HD and 4K is extracted and shown as 4K, HD,
  which is not the order SD, HD, 4K.
\<close>

theorem tiers_not_in_canonical_order:
  "extract_page hulu_page =
     Inr \<lparr>justWatchUrl = Some ''https://www.justwatch.com/us/movie/foo'',
          providersInfo = [(''Hulu'', [Q4K, HD])]\<rparr>
   \<and> quality_items [(''Hulu'', [Q4K, HD])] = [(''Hulu'', [''4K'', ''HD''])]
   \<and> \<not> canonical_order [Q4K, HD]"
  by (simp add: extract_hulu_page hulu_items canonical_order_def)

text \<open>
  Claim C5, amended, at that page.
\<close>

theorem tiers_in_insertion_order_witness:
  "extract_page hulu_page =
     Inr \<lparr>justWatchUrl = Some ''https://www.justwatch.com/us/movie/foo'',
          providersInfo = [(''Hulu'', [Q4K, HD])]\<rparr>
   \<and> provider_names (stream_entries hulu_page) = {''Hulu''}
   \<and> [Q4K, HD] = foldl set_add [] (marks_for ''Hulu'' (stream_entries hulu_page))
   \<and> (''Hulu'', [''4K'', ''HD'']) \<in> set (quality_items [(''Hulu'', [Q4K, HD])])"
proof -
  from tiers_in_insertion_order [of hulu_page
      "\<lparr>justWatchUrl = Some ''https://www.justwatch.com/us/movie/foo'',
        providersInfo = [(''Hulu'', [Q4K, HD])]\<rparr>" "''Hulu''" "[Q4K, HD]" "[]"]
  have "provider_names (stream_entries hulu_page) = {''Hulu''}
    \<and> [Q4K, HD] = foldl set_add [] (marks_for ''Hulu'' (stream_entries hulu_page))
    \<and> (''Hulu'', [''4K'', ''HD'']) \<in> set (quality_items [(''Hulu'', [Q4K, HD])])"
    by (simp (no_asm_use) add: extract_hulu_page) blast
  with extract_hulu_page show ?thesis by blast
qed


text \<open>
  The pattern matches at the leftmost \<^verbatim>\<open>on \<close>, not the last: for the title of a film
  called Moon the capture is not the provider's name.
\<close>

lemma leftmost_on_is_captured: "provider_of moon_entry = Some ''on Netflix''"
  by (simp add: provider_of_def moon_entry_def)



lemma well_formed_empty: "well_formed empty_result"
  by (simp add: well_formed_def empty_result_def)

lemma well_formed_extract: "extract_page doc = Inr r \<Longrightarrow> well_formed r"
  using extract_page_ok(1) [of doc r] by (simp add: well_formed_def info_ok_def)

lemma add_section_nothing:
  "(is_stream sec \<longrightarrow> offer_items sec = []) \<Longrightarrow> add_section info sec = Inr info"
  by (auto simp: add_section_def is_stream_def split: option.splits)

lemma forEach_add_section_nothing:
  "concat (map offer_items (filter is_stream sections)) = [] \<Longrightarrow>
   forEach add_section info sections = Inr info"
  by (induction sections) (auto simp: add_section_nothing)

lemma extract_page_nothing:
  "justwatch_href doc = None \<Longrightarrow> stream_entries doc = [] \<Longrightarrow> extract_page doc = Inr empty_result"
  by (simp add: extract_page_def stream_entries_def forEach_add_section_nothing empty_result_def)

lemma scrape_try_well_formed: "scrape_try jsdom outcome = Inr r \<Longrightarrow> well_formed r"
  by (auto simp: scrape_try_def well_formed_extract split: fetch_outcome.splits if_splits sum.splits)

lemma scrape_try_fails:
  "(\<exists>msg. outcome = Rejected msg)
   \<or> (\<exists>st html. outcome = Response st html
         \<and> (\<not> response_ok st \<or> (\<exists>e. jsdom html = Inl e)
             \<or> (\<exists>doc. jsdom html = Inr doc \<and> (\<exists>li \<in> set (stream_entries doc). throws li))))
   \<Longrightarrow> \<exists>e. scrape_try jsdom outcome = Inl e"
  by (auto simp: scrape_try_def intro: extract_page_throws [OF bexI])

lemma scrape_try_returns:
  assumes "outcome = Response st html" and "response_ok st" and "jsdom html = Inr doc"
    and "\<forall>li \<in> set (stream_entries doc). \<not> throws li"
  shows "\<exists>r. scrape_try jsdom outcome = Inr r
           \<and> justWatchUrl r = justwatch_href doc
           \<and> fst ` set (providersInfo r) = provider_names (stream_entries doc)
           \<and> (\<forall>p. tiers_of (providersInfo r) p = foldl set_add [] (marks_for p (stream_entries doc)))"
proof -
  from extract_page_returns [OF assms(4)] obtain r where r: "extract_page doc = Inr r"
    and keys: "fst ` set (providersInfo r) = provider_names (stream_entries doc)" by blast
  from assms(1,2,3) r have "scrape_try jsdom outcome = Inr r" by (simp add: scrape_try_def)
  with keys extract_page_ok(2,3) [OF r] show ?thesis by simp
qed

text \<open>
  Claim C3. Whatever the fetch gives and whatever the parser returns, the
  \<^verbatim>\<open>try\<close>/\<^verbatim>\<open>catch\<close> of the scraper settles with a well-formed result and never
  raises; so do both variants and the browser's wrapper.
  \<^item> Every failure gives the empty result: a rejected fetch, a status that is not a
    success, a parser that throws, and a page on which the extraction throws (an entry of
    a stream section named like a property of \<^verbatim>\<open>Object.prototype\<close> and carrying a
    quality marker).
  \<^item> On every other page the result holds what the page has, and what is missing is
    absent: the deep link is the one found or none, the providers are those named by the
    entries of the stream sections, each with the tiers of its entries; sections without
    a stream heading and entries without a provider name are skipped. A page with
    nothing to find gives the empty result.
\<close>

theorem scrape_never_raises:
  "(\<exists>r. scrape_catch (scrape_try jsdom outcome) = Inr r \<and> well_formed r
        \<and> ((\<exists>msg. outcome = Rejected msg)
             \<or> (\<exists>st html. outcome = Response st html
                   \<and> (\<not> response_ok st \<or> (\<exists>e. jsdom html = Inl e)
                       \<or> (\<exists>doc. jsdom html = Inr doc \<and> (\<exists>li \<in> set (stream_entries doc). throws li))))
            \<longrightarrow> r = empty_result)
        \<and> (\<forall>st html doc. outcome = Response st html \<and> response_ok st \<and> jsdom html = Inr doc
                \<and> (\<forall>li \<in> set (stream_entries doc). \<not> throws li)
            \<longrightarrow> justWatchUrl r = justwatch_href doc
                \<and> fst ` set (providersInfo r) = provider_names (stream_entries doc)
                \<and> (\<forall>p. tiers_of (providersInfo r) p
                         = foldl set_add [] (marks_for p (stream_entries doc)))
                \<and> (justwatch_href doc = None \<and> stream_entries doc = [] \<longrightarrow> r = empty_result)))
   \<and> fst (scrapeTmdbWatchPage_direct net jsdom url) = scrape_catch (scrape_try jsdom (net (get url)))
   \<and> fst (scrapeTmdbWatchPage_proxied net jsdom url)
       = scrape_catch (scrape_try jsdom (net (get (''https://corsproxy.io/?'' @ encodeURIComponent url))))
   \<and> (\<exists>r. fst (client_scrape net json url) = Inr r)"
proof (intro conjI)
  show "\<exists>r. scrape_catch (scrape_try jsdom outcome) = Inr r \<and> well_formed r
        \<and> ((\<exists>msg. outcome = Rejected msg)
             \<or> (\<exists>st html. outcome = Response st html
                   \<and> (\<not> response_ok st \<or> (\<exists>e. jsdom html = Inl e)
                       \<or> (\<exists>doc. jsdom html = Inr doc \<and> (\<exists>li \<in> set (stream_entries doc). throws li))))
            \<longrightarrow> r = empty_result)
        \<and> (\<forall>st html doc. outcome = Response st html \<and> response_ok st \<and> jsdom html = Inr doc
                \<and> (\<forall>li \<in> set (stream_entries doc). \<not> throws li)
            \<longrightarrow> justWatchUrl r = justwatch_href doc
                \<and> fst ` set (providersInfo r) = provider_names (stream_entries doc)
                \<and> (\<forall>p. tiers_of (providersInfo r) p
                         = foldl set_add [] (marks_for p (stream_entries doc)))
                \<and> (justwatch_href doc = None \<and> stream_entries doc = [] \<longrightarrow> r = empty_result))"
  proof (cases "scrape_try jsdom outcome")
    case (Inl e)
    show ?thesis
    proof (intro exI [of _ empty_result] conjI impI allI)
      from Inl show "scrape_catch (scrape_try jsdom outcome) = Inr empty_result"
        by (simp add: scrape_catch_def)
      show "well_formed empty_result" by (rule well_formed_empty)
      show "empty_result = empty_result" by simp
    next
      fix st html doc
      assume "outcome = Response st html \<and> response_ok st \<and> jsdom html = Inr doc
                \<and> (\<forall>li \<in> set (stream_entries doc). \<not> throws li)"
      then have o: "outcome = Response st html" and s: "response_ok st" and d: "jsdom html = Inr doc"
        and n: "\<forall>li \<in> set (stream_entries doc). \<not> throws li" by simp_all
      from scrape_try_returns [where jsdom = jsdom, OF o s d n] Inl have False by auto
      then show "justWatchUrl empty_result = justwatch_href doc"
        and "fst ` set (providersInfo empty_result) = provider_names (stream_entries doc)"
        and "tiers_of (providersInfo empty_result) p
               = foldl set_add [] (marks_for p (stream_entries doc))" for p
        by simp_all
      show "empty_result = empty_result" by simp
    qed
  next
    case (Inr r)
    then have c: "scrape_catch (scrape_try jsdom outcome) = Inr r"
      by (simp add: scrape_catch_def)
    have wf: "well_formed r" using Inr by (rule scrape_try_well_formed)
    show ?thesis
    proof (intro exI [of _ r] conjI impI allI)
      show "scrape_catch (scrape_try jsdom outcome) = Inr r" by (rule c)
      show "well_formed r" by (rule wf)
      assume "(\<exists>msg. outcome = Rejected msg)
             \<or> (\<exists>st html. outcome = Response st html
                   \<and> (\<not> response_ok st \<or> (\<exists>e. jsdom html = Inl e)
                       \<or> (\<exists>doc. jsdom html = Inr doc \<and> (\<exists>li \<in> set (stream_entries doc). throws li))))"
      then have "\<exists>e. scrape_try jsdom outcome = Inl e" by (rule scrape_try_fails)
      with Inr show "r = empty_result" by simp
    next
      fix st html doc
      assume "outcome = Response st html \<and> response_ok st \<and> jsdom html = Inr doc
                \<and> (\<forall>li \<in> set (stream_entries doc). \<not> throws li)"
      then have o: "outcome = Response st html" and s: "response_ok st" and d: "jsdom html = Inr doc"
        and n: "\<forall>li \<in> set (stream_entries doc). \<not> throws li" by simp_all
      from scrape_try_returns [where jsdom = jsdom, OF o s d n] Inr
      show "justWatchUrl r = justwatch_href doc"
        and "fst ` set (providersInfo r) = provider_names (stream_entries doc)"
        and "tiers_of (providersInfo r) p
               = foldl set_add [] (marks_for p (stream_entries doc))" for p
        by simp_all
      assume "justwatch_href doc = None \<and> stream_entries doc = []"
      then have "extract_page doc = Inr empty_result" by (simp add: extract_page_nothing)
      with Inr o s d show "r = empty_result"
        by (simp add: scrape_try_def)
    qed
  qed
  show "fst (scrapeTmdbWatchPage_direct net jsdom url) = scrape_catch (scrape_try jsdom (net (get url)))"
    by (simp add: scrapeTmdbWatchPage_direct_def)
  show "fst (scrapeTmdbWatchPage_proxied net jsdom url)
       = scrape_catch (scrape_try jsdom (net (get (''https://corsproxy.io/?'' @ encodeURIComponent url))))"
    by (simp add: scrapeTmdbWatchPage_proxied_def Let_def)
  show "\<exists>r. fst (client_scrape net json url) = Inr r"
    by (auto simp: client_scrape_def Let_def scrape_catch_def split: sum.splits)
qed

lemma extract_gaps_page:
  "extract_page gaps_page = Inr \<lparr>justWatchUrl = None, providersInfo = [(''Hulu'', [HD])]\<rparr>"
  by (simp add: extract_page_def gaps_page_def add_section_def stream_heading
      add_quality_def provider_of_def hulu_title quality_marks_def set_add_def
      object_prototype_keys_def)

lemma gaps_entries:
  "stream_entries gaps_page =
     [\<lparr>anchor_title = None, classList = []\<rparr>,
      \<lparr>anchor_title = Some ''Watch Foo on Hulu'', classList = [''ott_filter_hd'']\<rparr>]"
  by (simp add: stream_entries_def gaps_page_def is_stream_def stream_heading)

lemma gaps_providers:
  "provider_of \<lparr>anchor_title = None, classList = []\<rparr> = None"
  "provider_of \<lparr>anchor_title = Some ''Watch Foo on Hulu'', classList = [''ott_filter_hd'']\<rparr> = Some ''Hulu''"
  by (simp_all add: provider_of_def)

lemma gaps_page_does_not_throw: "\<forall>li \<in> set (stream_entries gaps_page). \<not> throws li"
  by (simp add: gaps_entries throws_def gaps_providers object_prototype_keys_def)

lemma gaps_marks: "foldl set_add [] (marks_for ''Hulu'' (stream_entries gaps_page)) = [HD]"
  by (simp add: gaps_entries marks_for_def gaps_providers quality_marks_def set_add_def)

lemma scrape_gaps_page:
  "scrape_catch (scrape_try (parses_to gaps_page) (ok_network (get example_url)))
     = Inr \<lparr>justWatchUrl = None, providersInfo = [(''Hulu'', [HD])]\<rparr>"
  by (simp add: scrape_try_def scrape_catch_def ok_network_def parses_to_def response_ok_def
      extract_gaps_page)

lemma proto_entry_throws:
  "throws \<lparr>anchor_title = Some ''Watch Foo on constructor'', classList = [''ott_filter_hd'']\<rparr>"
  by (simp add: throws_def provider_of_def object_prototype_keys_def quality_marks_def)

lemma proto_page_throws: "\<exists>li \<in> set (stream_entries proto_page). throws li"
  by (simp add: stream_entries_def proto_page_def is_stream_def stream_heading proto_entry_throws)

text \<open>
  Claim C3 at three inputs. A page with a provider called \<^verbatim>\<open>constructor\<close>, on which
  the extraction throws, and the blocked origin give the empty result. A page without
  deep link, with a section without heading and an entry without anchor gives a result
  without deep link that holds the one provider the page names: what is missing is
  absent, the rest is kept.
\<close>

theorem scrape_never_raises_witness:
  "throws \<lparr>anchor_title = Some ''Watch Foo on constructor'', classList = [''ott_filter_hd'']\<rparr>
   \<and> fst (scrapeTmdbWatchPage_direct ok_network (parses_to proto_page) example_url) = Inr empty_result
   \<and> blocked (get example_url) = Response 403 ''Forbidden''
   \<and> fst (scrapeTmdbWatchPage_direct blocked no_jsdom example_url) = Inr empty_result
   \<and> justwatch_href gaps_page = None
   \<and> heading (ott_providers gaps_page ! 0) = None
   \<and> anchor_title (offer_items (ott_providers gaps_page ! 1) ! 0) = None
   \<and> fst (scrapeTmdbWatchPage_direct ok_network (parses_to gaps_page) example_url)
       = Inr \<lparr>justWatchUrl = None, providersInfo = [(''Hulu'', [HD])]\<rparr>
   \<and> well_formed \<lparr>justWatchUrl = None, providersInfo = [(''Hulu'', [HD])]\<rparr>
   \<and> tiers_of [(''Hulu'', [HD])] ''Hulu'' = foldl set_add [] (marks_for ''Hulu'' (stream_entries gaps_page))
   \<and> well_formed empty_result"
proof -
  have o: "ok_network (get example_url) = Response 200 ''<!DOCTYPE html>''"
    by (simp add: ok_network_def)
  have ok: "response_ok 200" by (simp add: response_ok_def)
  have p: "parses_to proto_page ''<!DOCTYPE html>'' = Inr proto_page"
    by (simp add: parses_to_def)
  have g: "parses_to gaps_page ''<!DOCTYPE html>'' = Inr gaps_page"
    by (simp add: parses_to_def)
  have b: "blocked (get example_url) = Response 403 ''Forbidden''"
    by (simp add: blocked_def)
  have n: "\<not> response_ok 403" by (simp add: response_ok_def)
  note T1 = scrape_never_raises [where jsdom = "parses_to proto_page"
      and outcome = "ok_network (get example_url)" and net = ok_network and url = example_url]
  from T1 [THEN conjunct1] obtain r1 where
    c1: "scrape_catch (scrape_try (parses_to proto_page) (ok_network (get example_url))) = Inr r1"
    and i1: "(\<exists>msg. ok_network (get example_url) = Rejected msg)
             \<or> (\<exists>st html. ok_network (get example_url) = Response st html
                   \<and> (\<not> response_ok st \<or> (\<exists>e. parses_to proto_page html = Inl e)
                       \<or> (\<exists>doc. parses_to proto_page html = Inr doc
                             \<and> (\<exists>li \<in> set (stream_entries doc). throws li))))
            \<longrightarrow> r1 = empty_result"
    by (elim exE conjE)
  from o p proto_page_throws
  have "\<exists>st html. ok_network (get example_url) = Response st html
          \<and> (\<exists>doc. parses_to proto_page html = Inr doc \<and> (\<exists>li \<in> set (stream_entries doc). throws li))"
    by blast
  with i1 have "r1 = empty_result" by blast
  with c1 T1 [THEN conjunct2, THEN conjunct1]
  have 1: "fst (scrapeTmdbWatchPage_direct ok_network (parses_to proto_page) example_url) = Inr empty_result"
    by simp
  note T2 = scrape_never_raises [where jsdom = no_jsdom
      and outcome = "blocked (get example_url)" and net = blocked and url = example_url]
  from T2 [THEN conjunct1] obtain r2 where
    c2: "scrape_catch (scrape_try no_jsdom (blocked (get example_url))) = Inr r2"
    and i2: "(\<exists>msg. blocked (get example_url) = Rejected msg)
             \<or> (\<exists>st html. blocked (get example_url) = Response st html
                   \<and> (\<not> response_ok st \<or> (\<exists>e. no_jsdom html = Inl e)
                       \<or> (\<exists>doc. no_jsdom html = Inr doc
                             \<and> (\<exists>li \<in> set (stream_entries doc). throws li))))
            \<longrightarrow> r2 = empty_result"
    by (elim exE conjE)
  from b n have "\<exists>st html. blocked (get example_url) = Response st html \<and> \<not> response_ok st"
    by blast
  with i2 have "r2 = empty_result" by blast
  with c2 T2 [THEN conjunct2, THEN conjunct1]
  have 2: "fst (scrapeTmdbWatchPage_direct blocked no_jsdom example_url) = Inr empty_result"
    by simp
  note T3 = scrape_never_raises [where jsdom = "parses_to gaps_page"
      and outcome = "ok_network (get example_url)" and net = ok_network and url = example_url]
  from T3 [THEN conjunct1] obtain r3 where
    c3: "scrape_catch (scrape_try (parses_to gaps_page) (ok_network (get example_url))) = Inr r3"
    and wf3: "well_formed r3"
    and a3: "\<forall>st html doc. ok_network (get example_url) = Response st html \<and> response_ok st
                \<and> parses_to gaps_page html = Inr doc
                \<and> (\<forall>li \<in> set (stream_entries doc). \<not> throws li)
            \<longrightarrow> justWatchUrl r3 = justwatch_href doc
                \<and> fst ` set (providersInfo r3) = provider_names (stream_entries doc)
                \<and> (\<forall>p. tiers_of (providersInfo r3) p
                         = foldl set_add [] (marks_for p (stream_entries doc)))
                \<and> (justwatch_href doc = None \<and> stream_entries doc = [] \<longrightarrow> r3 = empty_result)"
    by (elim exE conjE)
  from c3 scrape_gaps_page have r3: "r3 = \<lparr>justWatchUrl = None, providersInfo = [(''Hulu'', [HD])]\<rparr>"
    by simp
  from a3 [rule_format, of 200 "''<!DOCTYPE html>''" gaps_page] o ok g gaps_page_does_not_throw
  have "\<forall>p. tiers_of (providersInfo r3) p = foldl set_add [] (marks_for p (stream_entries gaps_page))"
    by blast
  with r3 have t3: "tiers_of [(''Hulu'', [HD])] ''Hulu''
                   = foldl set_add [] (marks_for ''Hulu'' (stream_entries gaps_page))"
    by simp
  from r3 wf3 have w3: "well_formed \<lparr>justWatchUrl = None, providersInfo = [(''Hulu'', [HD])]\<rparr>"
    by simp
  from T3 [THEN conjunct2, THEN conjunct1] scrape_gaps_page
  have 3: "fst (scrapeTmdbWatchPage_direct ok_network (parses_to gaps_page) example_url)
       = Inr \<lparr>justWatchUrl = None, providersInfo = [(''Hulu'', [HD])]\<rparr>"
    by simp
  have gaps: "justwatch_href gaps_page = None" "heading (ott_providers gaps_page ! 0) = None"
    "anchor_title (offer_items (ott_providers gaps_page ! 1) ! 0) = None"
    by (simp_all add: gaps_page_def)
  from proto_entry_throws 1 b 2 gaps 3 w3 t3 well_formed_empty show ?thesis by (intro conjI)
qed

section \<open>Properties of the enrichment\<close>

lemma length_close_first: "length (close_first ts) = length ts"
  by (induction ts) auto

lemma close_first_keeps:
  "i < length ts \<Longrightarrow>
   jw_status (tag_dropdown (close_first ts ! i)) = jw_status (tag_dropdown (ts ! i))
   \<and> shown_detail (tag_dropdown (close_first ts ! i)) = shown_detail (tag_dropdown (ts ! i))"
proof (induction ts arbitrary: i)
  case Nil
  then show ?case by simp
next
  case (Cons t ts)
  then show ?case by (cases i) (auto simp: shown_detail_def set_shown_def)
qed

lemma step_keeps_settled:
  assumes "settled s i"
  shows "settled (step ctx s ev) i
         \<and> shown_detail (tag_dropdown (tags (step ctx s ev) ! i))
             = shown_detail (tag_dropdown (tags s ! i))
         \<and> started_by (step ctx s ev) i = started_by s i"
proof (cases ev)
  case (ClickTag j)
  with assms show ?thesis
    by (auto simp: settled_def started_by_def shown_detail_def set_shown_def Let_def
        nth_list_update)
next
  case ClickElsewhere
  with assms close_first_keeps [of i "tags s"] show ?thesis
    by (simp add: settled_def started_by_def length_close_first)
next
  case (ScrapeReturns j r)
  with assms show ?thesis
    by (auto simp: settled_def started_by_def shown_detail_def nth_list_update)
qed

lemma run_keeps_settled:
  "settled s i \<Longrightarrow>
   settled (run ctx s events) i
   \<and> shown_detail (tag_dropdown (tags (run ctx s events) ! i))
       = shown_detail (tag_dropdown (tags s ! i))
   \<and> started_by (run ctx s events) i = started_by s i"
proof (induction events arbitrary: s)
  case Nil
  then show ?case by (simp add: run_def)
next
  case (Cons ev events)
  from step_keeps_settled [OF Cons.prems, of ctx ev]
  have a: "settled (step ctx s ev) i"
    and b: "shown_detail (tag_dropdown (tags (step ctx s ev) ! i))
            = shown_detail (tag_dropdown (tags s ! i))"
    and c: "started_by (step ctx s ev) i = started_by s i"
    by simp_all
  from Cons.IH [OF a] b c show ?case by (simp add: run_def)
qed

text \<open>
  Claim C6, amended. Once the enrichment of a country tag has completed (its dropdown is
  marked loaded and no scrape is awaited for it), nothing that happens afterwards starts
  another scrape for that tag or changes what its dropdown shows: expanding the tag again
  yields the same detail and no fetch. The cache is the dropdown of the tag, and a
  country has one tag per provider.
\<close>

theorem loaded_tag_is_not_fetched_again:
  "settled s i \<longrightarrow>
     settled (run ctx s events) i
     \<and> shown_detail (tag_dropdown (tags (run ctx s events) ! i))
         = shown_detail (tag_dropdown (tags s ! i))
     \<and> started_by (run ctx s events) i = started_by s i"
  using run_keeps_settled [of s i ctx events] by blast

lemma string_of_nat_603: "string_of_nat 603 = ''603''"
  by (simp add: string_of_nat.simps)

lemma example_title_link: "tmdbLinkUrl ''movie'' 603 ''US'' = example_url"
  by (simp add: tmdbLinkUrl_def example_url_def string_of_nat_603)

lemma example_two_providers_map:
  "build_provider_map example_two_providers =
     [(8, \<lparr>name = ''Netflix'', logo = ''/n.jpg'', countries = [''US'']\<rparr>),
      (15, \<lparr>name = ''Hulu'', logo = ''/h.jpg'', countries = [''US'']\<rparr>)]"
  by (simp add: example_two_providers_def build_provider_map_def add_country_def add_offer_def
      set_add_def)

lemma example_two_providers_sorted:
  "sortedProviders example_two_providers =
     [\<lparr>name = ''Netflix'', logo = ''/n.jpg'', countries = [''US'']\<rparr>,
      \<lparr>name = ''Hulu'', logo = ''/h.jpg'', countries = [''US'']\<rparr>]"
  by (simp add: sortedProviders_def example_two_providers_map object_values_def
      own_property_order_def is_array_index_def js_sort_def by_country_count_def)

lemma example_tags:
  "clickable_tags example_names code_unit_compare example_two_providers = [''US'', ''US'']"
  by (simp add: clickable_tags_def example_two_providers_sorted
      sortedCountries_def js_sort_def JUSTWATCH_SUPPORTED_COUNTRIES_def)

lemma example_results_page:
  "example_results
   = \<lparr>tags = [\<lparr>tag_code = ''US'', tag_dropdown = createDropdown ''movie'' 603 ''US''\<rparr>,
              \<lparr>tag_code = ''US'', tag_dropdown = createDropdown ''movie'' 603 ''US''\<rparr>],
      awaiting = [], started = []\<rparr>"
  by (simp add: example_results_def render_tags_def example_tags example_title_def)

lemma example_first_expansion:
  "run example_title example_results [ClickTag 0, ScrapeReturns 0 empty_result]
   = \<lparr>tags = [\<lparr>tag_code = ''US'',
               tag_dropdown = updateDropdownContent
                                ((createDropdown ''movie'' 603 ''US'')\<lparr>shown := True\<rparr>) empty_result\<rparr>,
              \<lparr>tag_code = ''US'', tag_dropdown = createDropdown ''movie'' 603 ''US''\<rparr>],
      awaiting = [], started = [(0, example_url)]\<rparr>"
  by (simp add: run_def example_results_page example_title_def example_title_link set_shown_def
      createDropdown_def)

text \<open>
  Claim C6 as stated fails: a title offered by two providers in the US has two US tags;
  after the first has completed its enrichment, expanding the second fetches the same
  URL again.
\<close>

theorem same_country_is_fetched_once_per_tag:
  "map tag_code (tags example_results) = [''US'', ''US'']
   \<and> jw_status (tag_dropdown (tags (run example_title example_results
                                       [ClickTag 0, ScrapeReturns 0 empty_result]) ! 0)) = Loaded
   \<and> started (run example_title example_results
                [ClickTag 0, ScrapeReturns 0 empty_result, ClickTag 1])
       = [(0, example_url), (1, example_url)]"
  by (simp add: run_def example_results_page example_title_def example_title_link set_shown_def
      createDropdown_def updateDropdownContent_def)

text \<open>
  The guard tests for \<^verbatim>\<open>loading\<close>, which also holds while a scrape is awaited: closing
  and expanding a tag again before its first scrape returns starts a second one.
\<close>

lemma expansion_while_awaiting_fetches_again:
  "started (run example_title example_results [ClickTag 0, ClickTag 0, ClickTag 0])
   = [(0, example_url), (0, example_url)]"
  by (simp add: run_def example_results_page example_title_def example_title_link set_shown_def
      createDropdown_def)

text \<open>
  Claim C6, amended, at the first US tag: one fetch on the first expansion, none
  afterwards, and the same text in the dropdown.
\<close>

theorem loaded_tag_is_not_fetched_again_witness:
  "settled (run example_title example_results [ClickTag 0, ScrapeReturns 0 empty_result]) 0
   \<and> started_by (run example_title example_results
                    [ClickTag 0, ScrapeReturns 0 empty_result]) 0 = [example_url]
   \<and> started_by (run example_title
                    (run example_title example_results [ClickTag 0, ScrapeReturns 0 empty_result])
                    [ClickTag 0, ClickElsewhere, ClickTag 0, ClickTag 1]) 0 = [example_url]
   \<and> jw_text (tag_dropdown (tags (run example_title
                    (run example_title example_results [ClickTag 0, ScrapeReturns 0 empty_result])
                    [ClickTag 0, ClickElsewhere, ClickTag 0, ClickTag 1]) ! 0))
       = ''JustWatch link not found''"
proof -
  let ?s = "run example_title example_results [ClickTag 0, ScrapeReturns 0 empty_result]"
  have settled: "settled ?s 0"
    by (simp add: example_first_expansion settled_def updateDropdownContent_def)
  have once: "started_by ?s 0 = [example_url]"
    by (simp add: example_first_expansion started_by_def)
  have label: "jw_text (tag_dropdown (tags ?s ! 0)) = ''JustWatch link not found''"
    by (simp add: example_first_expansion updateDropdownContent_def)
      (simp add: empty_result_def truthy_def)
  from loaded_tag_is_not_fetched_again
         [of ?s 0 example_title "[ClickTag 0, ClickElsewhere, ClickTag 0, ClickTag 1]"] settled
  have "shown_detail (tag_dropdown (tags (run example_title ?s
            [ClickTag 0, ClickElsewhere, ClickTag 0, ClickTag 1]) ! 0))
        = shown_detail (tag_dropdown (tags ?s ! 0))"
    and "started_by (run example_title ?s [ClickTag 0, ClickElsewhere, ClickTag 0, ClickTag 1]) 0
         = started_by ?s 0"
    by simp_all
  with settled once label show ?thesis
    by (simp add: shown_detail_def)
qed

end
